theory Spec2Isabelle
  imports Complex_Main "HOL-Library.AList"
begin

section \<open>JavaScript values as they occur in the provider switchboard\<close>

text \<open>
  The switchboard stores and exchanges JSON documents (\<^verbatim>\<open>settings_config\<close>, the external
  settings files). A JSON value is modelled with the members of an object in the order they
  were defined; an element of a \<^typ>\<open>string\<close> stands for one code unit of the JavaScript
  string. (JavaScript enumerates keys that are array indices before the others; that order is
  not tracked: the general properties below are stated on lookups, which do not depend on
  it, and the examples use no such keys.)
  \<^verbatim>\<open>JSON.parse\<close> and \<^verbatim>\<open>JSON.stringify\<close> are library functions: the operations below take
  them as parameters \<open>parse\<close> (\<open>None\<close> when it throws) and \<open>stringify\<close>.
\<close>

datatype json =
    JNull
  | JBool bool
  | JNum rat
  | JStr string
  | JArr "json list"
  | JObj "(string \<times> json) list"

text \<open>Truthiness, as tested by \<^verbatim>\<open>x || y\<close>, \<^verbatim>\<open>x ? a : b\<close> and \<^verbatim>\<open>if (x)\<close>; \<open>None\<close> is
  \<^verbatim>\<open>undefined\<close>.\<close>

fun truthy :: "json option \<Rightarrow> bool" where
  "truthy None = False"
| "truthy (Some JNull) = False"
| "truthy (Some (JBool b)) = b"
| "truthy (Some (JNum n)) = (n \<noteq> 0)"
| "truthy (Some (JStr s)) = (s \<noteq> [])"
| "truthy (Some (JArr xs)) = True"
| "truthy (Some (JObj kvs)) = True"

text \<open>\<^verbatim>\<open>x || {}\<close>.\<close>

definition or_empty_object :: "json option \<Rightarrow> json" where
  "or_empty_object v = (case v of None \<Rightarrow> JObj [] | Some x \<Rightarrow> if truthy v then x else JObj [])"

section \<open>ProviderStore: the table \<^verbatim>\<open>cc_providers\<close>\<close>

text \<open>
  A row of \<^verbatim>\<open>cc_providers\<close> (init.sql). The table is the list of its rows in insertion
  order. The column \<^verbatim>\<open>id\<close> is \<^verbatim>\<open>TEXT PRIMARY KEY\<close>: SQLite admits NULL in such a column, in
  any number of rows, and a NULL never conflicts with another key; \<open>None\<close> is NULL. The
  column \<^verbatim>\<open>is_current\<close> only ever receives 0 or 1 and is a \<^typ>\<open>bool\<close> here.
  \<^verbatim>\<open>CURRENT_TIMESTAMP\<close> is the parameter \<open>now\<close>.
\<close>

type_synonym timestamp = nat

record provider_row =
  p_id :: "string option"
  p_name :: string
  p_app_type :: string
  p_settings_config :: string
  p_website_url :: "string option"
  p_category :: "string option"
  p_notes :: "string option"
  p_icon :: "string option"
  p_icon_color :: "string option"
  p_is_current :: bool
  p_sort_index :: int
  p_created_at :: timestamp
  p_updated_at :: timestamp

text \<open>The object handed to \<^verbatim>\<open>upsert\<close>; \<open>None\<close> is a field that is absent.\<close>

record provider_arg =
  a_id :: "string option"
  a_name :: "string option"
  a_app_type :: "string option"
  a_settings_config :: "json option"
  a_website_url :: "string option"
  a_category :: "string option"
  a_notes :: "string option"
  a_icon :: "string option"
  a_icon_color :: "string option"
  a_is_current :: "json option"
  a_sort_index :: "int option"

text \<open>What a statement throws: a \<^verbatim>\<open>NOT NULL\<close> or \<^verbatim>\<open>FOREIGN KEY\<close> constraint that failed.\<close>

datatype db_error = ConstraintError

text \<open>\<^verbatim>\<open>s || d\<close> on an optional string: the empty string is falsy too.\<close>

definition str_or :: "string option \<Rightarrow> 'a \<Rightarrow> (string \<Rightarrow> 'a) \<Rightarrow> 'a" where
  "str_or s d f = (case s of None \<Rightarrow> d | Some x \<Rightarrow> if x = [] then d else f x)"

definition app_or_default :: "string option \<Rightarrow> string" where
  "app_or_default a = (case a of None \<Rightarrow> ''claude'' | Some x \<Rightarrow> x)"

definition configStr :: "(json \<Rightarrow> string) \<Rightarrow> json option \<Rightarrow> string" where
  "configStr stringify sc =
     (case sc of Some (JStr s) \<Rightarrow> s | _ \<Rightarrow> stringify (or_empty_object sc))"

text \<open>
  \<^verbatim>\<open>ccProvidersDb.upsert\<close>: \<^verbatim>\<open>INSERT ... ON CONFLICT(id) DO UPDATE SET ...\<close>. The update
  list names every inserted column but \<^verbatim>\<open>id\<close> and \<^verbatim>\<open>app_type\<close>, and \<^verbatim>\<open>created_at\<close> is
  not inserted. An absent field is bound as NULL. Without a \<^verbatim>\<open>name\<close> the statement fails on
  \<^verbatim>\<open>name TEXT NOT NULL\<close> and the table is as before. Without an \<^verbatim>\<open>id\<close> there is no conflict:
  every such call inserts a row whose \<^verbatim>\<open>id\<close> is NULL.
\<close>

definition upsert_update ::
  "(json \<Rightarrow> string) \<Rightarrow> timestamp \<Rightarrow> provider_arg \<Rightarrow> string \<Rightarrow> provider_row \<Rightarrow> provider_row" where
  "upsert_update stringify now a n r =
     r\<lparr> p_name := n,
        p_settings_config := configStr stringify (a_settings_config a),
        p_website_url := str_or (a_website_url a) None Some,
        p_category := Some (str_or (a_category a) ''custom'' (\<lambda>x. x)),
        p_notes := str_or (a_notes a) None Some,
        p_icon := str_or (a_icon a) None Some,
        p_icon_color := Some (str_or (a_icon_color a) ''#6366f1'' (\<lambda>x. x)),
        p_is_current := truthy (a_is_current a),
        p_sort_index := (case a_sort_index a of None \<Rightarrow> 0 | Some k \<Rightarrow> k),
        p_updated_at := now \<rparr>"

definition upsert_insert ::
  "(json \<Rightarrow> string) \<Rightarrow> timestamp \<Rightarrow> provider_arg \<Rightarrow> string \<Rightarrow> provider_row" where
  "upsert_insert stringify now a n =
     \<lparr> p_id = a_id a, p_name = n, p_app_type = app_or_default (a_app_type a),
       p_settings_config = configStr stringify (a_settings_config a),
       p_website_url = str_or (a_website_url a) None Some,
       p_category = Some (str_or (a_category a) ''custom'' (\<lambda>x. x)),
       p_notes = str_or (a_notes a) None Some,
       p_icon = str_or (a_icon a) None Some,
       p_icon_color = Some (str_or (a_icon_color a) ''#6366f1'' (\<lambda>x. x)),
       p_is_current = truthy (a_is_current a),
       p_sort_index = (case a_sort_index a of None \<Rightarrow> 0 | Some k \<Rightarrow> k),
       p_created_at = now, p_updated_at = now \<rparr>"

definition ccProvidersDb_upsert ::
  "(json \<Rightarrow> string) \<Rightarrow> timestamp \<Rightarrow> provider_arg \<Rightarrow> provider_row list
     \<Rightarrow> db_error + provider_row list" where
  "ccProvidersDb_upsert stringify now a tbl =
     (case a_name a of
        None \<Rightarrow> Inl ConstraintError
      | Some n \<Rightarrow>
          if a_id a \<noteq> None \<and> a_id a \<in> p_id ` set tbl
          then Inr (map (\<lambda>r. if p_id r = a_id a then upsert_update stringify now a n r else r) tbl)
          else Inr (tbl @ [upsert_insert stringify now a n]))"


text \<open>\<^verbatim>\<open>ccProvidersDb.delete\<close>: the table without the row, and whether a row went. (The
  cascade into \<^verbatim>\<open>cc_speed_tests\<close> is not followed here.)\<close>

definition ccProvidersDb_delete :: "string \<Rightarrow> provider_row list \<Rightarrow> bool \<times> provider_row list" where
  "ccProvidersDb_delete i tbl = (Some i \<in> p_id ` set tbl, filter (\<lambda>r. p_id r \<noteq> Some i) tbl)"

text \<open>\<^verbatim>\<open>ccProvidersDb.switchTo\<close>: one transaction of two updates, the first clearing
  \<^verbatim>\<open>is_current\<close> for the app type, the second setting it where id and app type match.
  It returns \<^verbatim>\<open>true\<close> whatever the second update matched.\<close>

definition clear_row :: "string \<Rightarrow> provider_row \<Rightarrow> provider_row" where
  "clear_row appType r = (if p_app_type r = appType then r\<lparr>p_is_current := False\<rparr> else r)"

definition set_row :: "string \<Rightarrow> string \<Rightarrow> provider_row \<Rightarrow> provider_row" where
  "set_row i appType r =
     (if p_id r = Some i \<and> p_app_type r = appType then r\<lparr>p_is_current := True\<rparr> else r)"

definition clear_current :: "string \<Rightarrow> provider_row list \<Rightarrow> provider_row list" where
  "clear_current appType tbl = map (clear_row appType) tbl"

definition set_current :: "string \<Rightarrow> string \<Rightarrow> provider_row list \<Rightarrow> provider_row list" where
  "set_current i appType tbl = map (set_row i appType) tbl"

definition ccProvidersDb_switchTo ::
  "string \<Rightarrow> string option \<Rightarrow> provider_row list \<Rightarrow> bool \<times> provider_row list" where
  "ccProvidersDb_switchTo i appType tbl =
     (True, set_current i (app_or_default appType) (clear_current (app_or_default appType) tbl))"

text \<open>The providers of an app type whose \<^verbatim>\<open>is_current\<close> is set, invariant I1, and what the
  primary key guarantees: no two rows share an id that is not NULL.\<close>

definition current_of :: "string \<Rightarrow> provider_row list \<Rightarrow> provider_row list" where
  "current_of appType tbl = filter (\<lambda>r. p_app_type r = appType \<and> p_is_current r) tbl"

definition single_current :: "provider_row list \<Rightarrow> bool" where
  "single_current tbl = (\<forall>a \<in> p_app_type ` set tbl. length (current_of a tbl) \<le> 1)"

fun ids :: "provider_row list \<Rightarrow> string list" where
  "ids [] = []"
| "ids (r # tbl) = (case p_id r of None \<Rightarrow> ids tbl | Some i \<Rightarrow> i # ids tbl)"

definition unique_ids :: "provider_row list \<Rightarrow> bool" where
  "unique_ids tbl = distinct (ids tbl)"

text \<open>Sequences of store operations; a statement that throws leaves the table as it was.
  \<open>sets_current\<close> holds of an upsert whose argument carries a truthy \<^verbatim>\<open>is_current\<close>.\<close>

datatype store_op =
    Upsert timestamp provider_arg
  | SwitchTo string "string option"
  | Delete string

fun sets_current :: "store_op \<Rightarrow> bool" where
  "sets_current (Upsert now a) = truthy (a_is_current a)"
| "sets_current _ = False"

fun apply_op :: "(json \<Rightarrow> string) \<Rightarrow> store_op \<Rightarrow> provider_row list \<Rightarrow> provider_row list" where
  "apply_op stringify (Upsert now a) tbl =
     (case ccProvidersDb_upsert stringify now a tbl of Inl e \<Rightarrow> tbl | Inr tbl' \<Rightarrow> tbl')"
| "apply_op stringify (SwitchTo i appType) tbl = snd (ccProvidersDb_switchTo i appType tbl)"
| "apply_op stringify (Delete i) tbl = snd (ccProvidersDb_delete i tbl)"

definition run_ops :: "(json \<Rightarrow> string) \<Rightarrow> store_op list \<Rightarrow> provider_row list \<Rightarrow> provider_row list" where
  "run_ops stringify ops tbl = fold (apply_op stringify) ops tbl"

subsection \<open>Example tables\<close>

text \<open>Providers A (current) and B of app type claude, the scenario of the single-current
  property, and an argument for \<^verbatim>\<open>upsert\<close> that carries an id, a name, an app type and
  possibly \<^verbatim>\<open>is_current\<close>.\<close>

definition example_row :: "string \<Rightarrow> string \<Rightarrow> bool \<Rightarrow> provider_row" where
  "example_row i appType cur =
     \<lparr> p_id = Some i, p_name = i, p_app_type = appType, p_settings_config = ''{}'',
       p_website_url = None, p_category = Some ''custom'', p_notes = None, p_icon = None,
       p_icon_color = Some ''#6366f1'', p_is_current = cur, p_sort_index = 0,
       p_created_at = 0, p_updated_at = 0 \<rparr>"

definition example_arg :: "string \<Rightarrow> string \<Rightarrow> json option \<Rightarrow> provider_arg" where
  "example_arg i appType cur =
     \<lparr> a_id = Some i, a_name = Some i, a_app_type = Some appType, a_settings_config = None,
       a_website_url = None, a_category = None, a_notes = None, a_icon = None,
       a_icon_color = None, a_is_current = cur, a_sort_index = None \<rparr>"

definition providers_AB :: "provider_row list" where
  "providers_AB = [example_row ''A'' ''claude'' True, example_row ''B'' ''claude'' False]"

text \<open>Provider A of claude, current, and provider C of codex.\<close>

definition providers_A_C :: "provider_row list" where
  "providers_A_C = [example_row ''A'' ''claude'' True, example_row ''C'' ''codex'' False]"

section \<open>ProviderStore: the table \<^verbatim>\<open>cc_prompts\<close>\<close>

record prompt_row =
  q_id :: string
  q_app_type :: string
  q_name :: string
  q_content :: string
  q_description :: "string option"
  q_is_enabled :: bool
  q_sort_index :: int
  q_created_at :: timestamp
  q_updated_at :: timestamp

text \<open>\<^verbatim>\<open>ccPromptsDb.enable\<close>: one transaction of two updates. The first clears \<^verbatim>\<open>is_enabled\<close>
  for the app type; the second sets it \<^verbatim>\<open>WHERE id = ?\<close>, with no condition on the app type.\<close>

definition disable_row :: "string \<Rightarrow> prompt_row \<Rightarrow> prompt_row" where
  "disable_row appType r = (if q_app_type r = appType then r\<lparr>q_is_enabled := False\<rparr> else r)"

definition enable_row :: "string \<Rightarrow> prompt_row \<Rightarrow> prompt_row" where
  "enable_row i r = (if q_id r = i then r\<lparr>q_is_enabled := True\<rparr> else r)"

definition ccPromptsDb_enable ::
  "string \<Rightarrow> string option \<Rightarrow> prompt_row list \<Rightarrow> bool \<times> prompt_row list" where
  "ccPromptsDb_enable i appType tbl =
     (True, map (enable_row i) (map (disable_row (app_or_default appType)) tbl))"

definition enabled_of :: "string \<Rightarrow> prompt_row list \<Rightarrow> prompt_row list" where
  "enabled_of appType tbl = filter (\<lambda>r. q_app_type r = appType \<and> q_is_enabled r) tbl"

definition example_prompt :: "string \<Rightarrow> string \<Rightarrow> bool \<Rightarrow> prompt_row" where
  "example_prompt i appType en =
     \<lparr> q_id = i, q_app_type = appType, q_name = i, q_content = ''be brief'',
       q_description = None, q_is_enabled = en, q_sort_index = 0,
       q_created_at = 0, q_updated_at = 0 \<rparr>"

definition prompts_P1_P2 :: "prompt_row list" where
  "prompts_P1_P2 = [example_prompt ''P1'' ''codex'' False, example_prompt ''P2'' ''codex'' False]"

section \<open>SpeedProbe results: the table \<^verbatim>\<open>cc_speed_tests\<close>\<close>

text \<open>
  A row of \<^verbatim>\<open>cc_speed_tests\<close>. The key is \<^verbatim>\<open>INTEGER PRIMARY KEY AUTOINCREMENT\<close>: the table
  carries the largest key handed out so far. \<^verbatim>\<open>tested_at\<close> defaults to \<^verbatim>\<open>CURRENT_TIMESTAMP\<close>,
  the parameter \<open>now\<close>.
\<close>

record speed_row =
  s_id :: nat
  s_provider_id :: string
  s_app_type :: string
  s_response_time_ms :: nat
  s_http_status :: nat
  s_status :: string
  s_tested_at :: timestamp

record speed_tests =
  st_rows :: "speed_row list"
  st_seq :: nat

text \<open>
  \<^verbatim>\<open>ccSpeedTestsDb.save\<close>: appends one row and answers with its key. The column
  \<^verbatim>\<open>provider_id\<close> is \<^verbatim>\<open>NOT NULL\<close> and references \<^verbatim>\<open>cc_providers(id)\<close>, and the connection
  enforces foreign keys: the insert throws, and nothing is stored, unless the argument is the
  id of a row of \<open>providers\<close>, the table \<^verbatim>\<open>cc_providers\<close>.
\<close>

definition ccSpeedTestsDb_save ::
  "timestamp \<Rightarrow> provider_row list \<Rightarrow> string option \<Rightarrow> string \<Rightarrow> nat \<Rightarrow> nat \<Rightarrow> string \<Rightarrow>
   speed_tests \<Rightarrow> db_error + nat \<times> speed_tests" where
  "ccSpeedTestsDb_save now providers providerId appType responseTimeMs httpStatus status st =
     (case providerId of
        None \<Rightarrow> Inl ConstraintError
      | Some p \<Rightarrow>
          if Some p \<in> p_id ` set providers
          then Inr (Suc (st_seq st),
                 st\<lparr> st_rows := st_rows st @
                        [\<lparr> s_id = Suc (st_seq st), s_provider_id = p, s_app_type = appType,
                           s_response_time_ms = responseTimeMs, s_http_status = httpStatus,
                           s_status = status, s_tested_at = now \<rparr>],
                     st_seq := Suc (st_seq st) \<rparr>)
          else Inl ConstraintError)"

text \<open>
  \<^verbatim>\<open>ccSpeedTestsDb.cleanup\<close>. The window function numbers the rows of each provider by
  \<^verbatim>\<open>tested_at\<close>, latest first; \<open>ranked\<close> is that order. SQL leaves the order of rows with
  equal \<^verbatim>\<open>tested_at\<close> to the engine: the parameter \<open>ties\<close> is the order in which the engine
  meets the rows of a provider, and rows with equal \<^verbatim>\<open>tested_at\<close> are numbered in that order.
  A row survives when its key is among those numbered at most \<open>keepCount\<close> (\<^verbatim>\<open>rn <= ?\<close>; no
  row is when the bound is negative). The argument defaults to 10.
\<close>

definition ranked :: "(speed_row list \<Rightarrow> speed_row list) \<Rightarrow> string \<Rightarrow> speed_row list \<Rightarrow> speed_row list" where
  "ranked ties p rows =
     sort_key (\<lambda>r. - int (s_tested_at r)) (ties (filter (\<lambda>r. s_provider_id r = p) rows))"

definition keep_ids :: "(speed_row list \<Rightarrow> speed_row list) \<Rightarrow> nat \<Rightarrow> speed_row list \<Rightarrow> nat list" where
  "keep_ids ties n rows =
     concat (map (\<lambda>p. map s_id (take n (ranked ties p rows))) (remdups (map s_provider_id rows)))"

definition keepCount_or_default :: "int option \<Rightarrow> nat" where
  "keepCount_or_default k = (case k of None \<Rightarrow> 10 | Some n \<Rightarrow> nat n)"

definition ccSpeedTestsDb_cleanup ::
  "(speed_row list \<Rightarrow> speed_row list) \<Rightarrow> int option \<Rightarrow> speed_row list \<Rightarrow> speed_row list" where
  "ccSpeedTestsDb_cleanup ties keepCount rows =
     filter (\<lambda>r. s_id r \<in> set (keep_ids ties (keepCount_or_default keepCount) rows)) rows"

text \<open>An order of meeting the rows: the same rows, as many.\<close>

definition reorders :: "(speed_row list \<Rightarrow> speed_row list) \<Rightarrow> bool" where
  "reorders ties = (\<forall>xs. set (ties xs) = set xs \<and> length (ties xs) = length xs)"

definition table_order :: "speed_row list \<Rightarrow> speed_row list" where
  "table_order xs = xs"

text \<open>The results of one provider.\<close>

definition results_of :: "string \<Rightarrow> speed_row list \<Rightarrow> speed_row list" where
  "results_of p rows = filter (\<lambda>r. s_provider_id r = p) rows"

text \<open>Fifteen results recorded for one provider, one per second.\<close>

fun record_results :: "nat \<Rightarrow> provider_row list \<Rightarrow> string \<Rightarrow> speed_tests \<Rightarrow> speed_tests" where
  "record_results 0 providers p st = st"
| "record_results (Suc n) providers p st =
     (case ccSpeedTestsDb_save (Suc n) providers (Some p) ''claude'' 120 200 ''operational''
             (record_results n providers p st) of
        Inl e \<Rightarrow> record_results n providers p st
      | Inr saved \<Rightarrow> snd saved)"

definition fifteen_results :: "speed_row list" where
  "fifteen_results = st_rows (record_results 15 providers_AB ''A'' \<lparr> st_rows = [], st_seq = 0 \<rparr>)"

section \<open>Reading providers back: \<^verbatim>\<open>getById\<close>, \<^verbatim>\<open>getAll\<close>, \<^verbatim>\<open>getCurrent\<close>\<close>

text \<open>
  \<^verbatim>\<open>settings_config\<close> as the data model types it: an optional \<^verbatim>\<open>env\<close> object from strings to
  strings, an optional \<^verbatim>\<open>configToml\<close> string, and the members that are passed through. An
  \<^verbatim>\<open>env\<close> object is the list of its members in own-property order, with unique keys.
\<close>

record settings_config =
  cfg_env :: "(string \<times> string) list option"
  cfg_configToml :: "string option"
  cfg_other :: "(string \<times> json) list"

text \<open>
  The reads answer with the row and its \<^verbatim>\<open>settings_config\<close> parsed. \<open>parse\<close> stands for
  \<^verbatim>\<open>JSON.parse\<close> into the typed configuration and is \<open>None\<close> where it throws; the read then
  throws too.
\<close>

datatype js_error = SyntaxError | TypeError | ENOENT | Interrupted

type_synonym provider = "provider_row \<times> settings_config"

definition parse_row :: "(string \<Rightarrow> settings_config option) \<Rightarrow> provider_row \<Rightarrow> js_error + provider" where
  "parse_row parse r =
     (case parse (if p_settings_config r = [] then ''{}'' else p_settings_config r) of
        None \<Rightarrow> Inl SyntaxError
      | Some c \<Rightarrow> Inr (r, c))"

fun parse_rows :: "(string \<Rightarrow> settings_config option) \<Rightarrow> provider_row list \<Rightarrow> js_error + provider list" where
  "parse_rows parse [] = Inr []"
| "parse_rows parse (r # rs) =
     (case parse_row parse r of
        Inl e \<Rightarrow> Inl e
      | Inr p \<Rightarrow> (case parse_rows parse rs of Inl e \<Rightarrow> Inl e | Inr ps \<Rightarrow> Inr (p # ps)))"

text \<open>\<^verbatim>\<open>getById\<close>: \<^verbatim>\<open>WHERE id = ?\<close> matches no row when the argument is absent, which is bound
  as NULL.\<close>

definition ccProvidersDb_getById ::
  "(string \<Rightarrow> settings_config option) \<Rightarrow> string option \<Rightarrow> provider_row list \<Rightarrow> js_error + provider option" where
  "ccProvidersDb_getById parse i tbl =
     (case find (\<lambda>r. i \<noteq> None \<and> p_id r = i) tbl of
        None \<Rightarrow> Inr None
      | Some r \<Rightarrow> (case parse_row parse r of Inl e \<Rightarrow> Inl e | Inr p \<Rightarrow> Inr (Some p)))"

text \<open>\<^verbatim>\<open>ORDER BY sort_index ASC, created_at DESC\<close>, rows that agree on both in table order.\<close>

definition ccProvidersDb_getAll ::
  "(string \<Rightarrow> settings_config option) \<Rightarrow> string option \<Rightarrow> provider_row list \<Rightarrow> js_error + provider list" where
  "ccProvidersDb_getAll parse appType tbl =
     parse_rows parse
       (sort_key p_sort_index
          (sort_key (\<lambda>r. - int (p_created_at r))
             (filter (\<lambda>r. p_app_type r = app_or_default appType) tbl)))"

text \<open>\<^verbatim>\<open>getCurrent\<close> has \<^verbatim>\<open>LIMIT 1\<close> and no order: where several rows qualify, the first in
  table order stands for the one the engine picks.\<close>

definition ccProvidersDb_getCurrent ::
  "(string \<Rightarrow> settings_config option) \<Rightarrow> string option \<Rightarrow> provider_row list \<Rightarrow> js_error + provider option" where
  "ccProvidersDb_getCurrent parse appType tbl =
     (case find (\<lambda>r. p_app_type r = app_or_default appType \<and> p_is_current r) tbl of
        None \<Rightarrow> Inr None
      | Some r \<Rightarrow> (case parse_row parse r of Inl e \<Rightarrow> Inl e | Inr p \<Rightarrow> Inr (Some p)))"

text \<open>\<^verbatim>\<open>config.env || {}\<close>, and \<^verbatim>\<open>env.K\<close> where only a truthy value counts (\<^verbatim>\<open>env.K || ...\<close>,
  \<^verbatim>\<open>if (env.K)\<close>): the empty string is falsy.\<close>

definition env_of :: "settings_config \<Rightarrow> (string \<times> string) list" where
  "env_of config = (case cfg_env config of None \<Rightarrow> [] | Some env \<Rightarrow> env)"

definition env_truthy :: "(string \<times> string) list \<Rightarrow> string \<Rightarrow> string option" where
  "env_truthy env k = (case map_of env k of None \<Rightarrow> None | Some v \<Rightarrow> if v = [] then None else Some v)"



text \<open>\<^verbatim>\<open>config.env?.A || config.env?.B || ...\<close>: the first operand that is truthy, else
  the last one as it is.\<close>

fun js_or :: "(string \<times> string) list option \<Rightarrow> string list \<Rightarrow> string option" where
  "js_or None ks = None"
| "js_or (Some e) [] = None"
| "js_or (Some e) [k] = map_of e k"
| "js_or (Some e) (k # k' # ks) =
     (case env_truthy e k of Some x \<Rightarrow> Some x | None \<Rightarrow> js_or (Some e) (k' # ks))"

text \<open>What a route answers: 200 with a body, 404, or 500.\<close>

datatype 'a response = Ok200 'a | NotFound404 | Error500

section \<open>SecretMask and the environment view\<close>

text \<open>\<^verbatim>\<open>key.includes(pat)\<close>.\<close>

fun js_includes :: "string \<Rightarrow> string \<Rightarrow> bool" where
  "js_includes [] pat = (pat = [])"
| "js_includes (c # cs) pat = (take (length pat) (c # cs) = pat \<or> js_includes cs pat)"

definition sensitive :: "string \<Rightarrow> bool" where
  "sensitive key =
     (js_includes key ''TOKEN'' \<or> js_includes key ''KEY'' \<or> js_includes key ''SECRET'')"

text \<open>\<^verbatim>\<open>value.substring(0, 8) + '...' + value.substring(value.length - 4)\<close>.\<close>

definition mask_value :: "string \<Rightarrow> string" where
  "mask_value v = take 8 v @ ''...'' @ drop (length v - 4) v"

text \<open>
  The masking loop of \<^verbatim>\<open>GET /providers\<close>. It runs over the keys the copy of \<^verbatim>\<open>env\<close> had when
  the loop began and mutates the copy: \<^verbatim>\<open>env[key + '_MASKED'] = ...\<close> writes the member in
  place when there is one and appends it otherwise; \<^verbatim>\<open>delete env[key]\<close> removes the member.
  \<^verbatim>\<open>env[key]\<close> is read from the copy as the loop has left it.
\<close>

definition mask_step :: "string \<Rightarrow> (string \<times> string) list \<Rightarrow> (string \<times> string) list" where
  "mask_step key env =
     (if sensitive key then
        (case map_of env key of
           None \<Rightarrow> env
         | Some v \<Rightarrow>
             if v \<noteq> [] \<and> length v > 12
             then AList.delete key (AList.update (key @ ''_MASKED'') (mask_value v) env)
             else env)
      else env)"

definition mask_env :: "(string \<times> string) list \<Rightarrow> (string \<times> string) list" where
  "mask_env env = fold mask_step (map fst env) env"

definition mask_config :: "settings_config \<Rightarrow> settings_config" where
  "mask_config config =
     (case cfg_env config of
        None \<Rightarrow> config
      | Some env \<Rightarrow> config\<lparr>cfg_env := Some (mask_env env)\<rparr>)"

text \<open>\<^verbatim>\<open>GET /providers\<close>: every provider of the app type with its configuration masked, and
  the base URL and the model read from the configuration as stored.\<close>

record provider_view =
  v_row :: provider_row
  v_settings_config :: settings_config
  v_baseUrl :: "string option"
  v_model :: "string option"

definition get_providers ::
  "(string \<Rightarrow> settings_config option) \<Rightarrow> string option \<Rightarrow> provider_row list \<Rightarrow> provider_view list response" where
  "get_providers parse app tbl =
     (case ccProvidersDb_getAll parse (Some (str_or app ''claude'' (\<lambda>x. x))) tbl of
        Inl e \<Rightarrow> Error500
      | Inr providers \<Rightarrow>
          Ok200 (map (\<lambda>p. \<lparr> v_row = fst p, v_settings_config = mask_config (snd p),
                               v_baseUrl = js_or (cfg_env (snd p))
                                 [''ANTHROPIC_BASE_URL'', ''OPENAI_BASE_URL'', ''GOOGLE_GEMINI_BASE_URL''],
                               v_model = js_or (cfg_env (snd p))
                                 [''ANTHROPIC_MODEL'', ''OPENAI_MODEL'', ''GEMINI_MODEL''] \<rparr>)
                   providers))"

text \<open>The members the masking loop renames, and the condition that no renamed key is already
  a key of \<^verbatim>\<open>env\<close>.\<close>

definition masks :: "(string \<times> string) list \<Rightarrow> string \<Rightarrow> bool" where
  "masks env k = (sensitive k \<and> (case map_of env k of None \<Rightarrow> False | Some v \<Rightarrow> 12 < length v))"

definition no_collision :: "(string \<times> string) list \<Rightarrow> bool" where
  "no_collision env = (\<forall>k. masks env k \<longrightarrow> map_of env (k @ ''_MASKED'') = None)"

text \<open>
  The loop of \<^verbatim>\<open>GET /env\<close> builds \<^verbatim>\<open>safeEnv\<close> from \<^verbatim>\<open>{}\<close> by assignments
  \<^verbatim>\<open>safeEnv[key] = ...\<close>. On such an object the assignment defines or overwrites the own
  member, except for the name \<^verbatim>\<open>__proto__\<close>: that one reaches the accessor inherited from
  \<^verbatim>\<open>Object.prototype\<close>, whose setter ignores a string, and no member is defined.
\<close>

definition js_assign :: "string \<Rightarrow> string \<Rightarrow> (string \<times> string) list \<Rightarrow> (string \<times> string) list" where
  "js_assign key v obj = (if key = ''__proto__'' then obj else AList.update key v obj)"

definition safe_step :: "string \<times> string \<Rightarrow> (string \<times> string) list \<Rightarrow> (string \<times> string) list" where
  "safe_step kv safeEnv =
     (if sensitive (fst kv) then
        (if snd kv \<noteq> [] \<and> length (snd kv) > 12
         then js_assign (fst kv) (mask_value (snd kv)) safeEnv
         else safeEnv)
      else js_assign (fst kv) (snd kv) safeEnv)"

definition safe_env :: "(string \<times> string) list \<Rightarrow> (string \<times> string) list" where
  "safe_env env = fold safe_step env []"

text \<open>\<^verbatim>\<open>GET /env\<close>: no current provider, or one without \<^verbatim>\<open>env\<close>, gives the empty
  object.\<close>

definition get_env ::
  "(string \<Rightarrow> settings_config option) \<Rightarrow> string option \<Rightarrow> provider_row list \<Rightarrow>
   (string \<times> string) list response" where
  "get_env parse app tbl =
     (case ccProvidersDb_getCurrent parse (Some (str_or app ''claude'' (\<lambda>x. x))) tbl of
        Inl e \<Rightarrow> Error500
      | Inr None \<Rightarrow> Ok200 []
      | Inr (Some p) \<Rightarrow> Ok200 (case cfg_env (snd p) of None \<Rightarrow> [] | Some env \<Rightarrow> safe_env env))"

text \<open>A parser for the example of a provider whose \<^verbatim>\<open>env\<close> has the member \<^verbatim>\<open>__proto__\<close>.\<close>

definition parse_proto :: "string \<Rightarrow> settings_config option" where
  "parse_proto s =
     Some \<lparr> cfg_env = Some [(''__proto__'', ''x''), (''ANTHROPIC_BASE_URL'', ''https://example.org'')],
            cfg_configToml = None, cfg_other = [] \<rparr>"

section \<open>SpeedProbe\<close>















definition parse_empty :: "string \<Rightarrow> settings_config option" where
  "parse_empty s = Some \<lparr> cfg_env = None, cfg_configToml = None, cfg_other = [] \<rparr>"


definition providers_unparsable :: "provider_row list" where
  "providers_unparsable = [(example_row ''A'' ''claude'' True)\<lparr>p_settings_config := ''{env''\<rparr>]"

definition providers_without_id :: "provider_row list" where
  "providers_without_id = [(example_row ''A'' ''claude'' False)\<lparr>p_id := None\<rparr>]"


section \<open>ConfigApplier\<close>

subsection \<open>The file system and the process environment\<close>

text \<open>
  The world the applier writes to: the files by path, and \<^verbatim>\<open>process.env\<close>. Directories are
  not tracked. Every effect is one step; \<open>fuel\<close>, when it is set, is the number of steps the
  process still runs before it is interrupted: the step that finds none left does nothing and
  raises \<open>Interrupted\<close>, which nothing catches, so no later effect happens.
  \<^verbatim>\<open>fs.writeFile\<close> opens its target with flag \<^verbatim>\<open>w\<close>, which creates or truncates it, and then
  writes the data: two steps. \<^verbatim>\<open>fs.rename\<close> is one step.
\<close>

record world =
  files :: "string \<rightharpoonup> string"
  process_env :: "string \<rightharpoonup> string"
  fuel :: "nat option"

type_synonym 'a io = "world \<Rightarrow> (js_error + 'a) \<times> world"

definition bind_io :: "'a io \<Rightarrow> ('a \<Rightarrow> 'b io) \<Rightarrow> 'b io" where
  "bind_io m f w = (case m w of (Inl e, w') \<Rightarrow> (Inl e, w') | (Inr x, w') \<Rightarrow> f x w')"

definition then_io :: "unit io \<Rightarrow> 'b io \<Rightarrow> 'b io" where
  "then_io m n = bind_io m (\<lambda>u. n)"

definition return_io :: "'a \<Rightarrow> 'a io" where
  "return_io x w = (Inr x, w)"

definition throw_io :: "js_error \<Rightarrow> 'a io" where
  "throw_io e w = (Inl e, w)"

definition effect :: "(world \<Rightarrow> world) \<Rightarrow> unit io" where
  "effect f w =
     (case fuel w of
        None \<Rightarrow> (Inr (), f w)
      | Some 0 \<Rightarrow> (Inl Interrupted, w)
      | Some (Suc n) \<Rightarrow> (Inr (), (f w)\<lparr>fuel := Some n\<rparr>))"

definition put_file :: "string \<Rightarrow> string \<Rightarrow> world \<Rightarrow> world" where
  "put_file path data w = w\<lparr>files := (files w)(path \<mapsto> data)\<rparr>"

definition fs_mkdir :: "string \<Rightarrow> unit io" where
  "fs_mkdir dir = effect (\<lambda>w. w)"

definition fs_writeFile :: "string \<Rightarrow> string \<Rightarrow> unit io" where
  "fs_writeFile path data = then_io (effect (put_file path [])) (effect (put_file path data))"

definition fs_rename :: "string \<Rightarrow> string \<Rightarrow> unit io" where
  "fs_rename src dst w =
     (case files w src of
        None \<Rightarrow> (Inl ENOENT, w)
      | Some c \<Rightarrow> effect (\<lambda>w. w\<lparr>files := ((files w)(src := None))(dst \<mapsto> c)\<rparr>) w)"

definition set_process_env :: "string \<Rightarrow> string \<Rightarrow> unit io" where
  "set_process_env key v = effect (\<lambda>w. w\<lparr>process_env := (process_env w)(key \<mapsto> v)\<rparr>)"

text \<open>\<^verbatim>\<open>path.join\<close> and \<^verbatim>\<open>path.dirname\<close> on the paths that occur: a directory and a plain
  name.\<close>

definition path_join :: "string \<Rightarrow> string \<Rightarrow> string" where
  "path_join dir name = dir @ ''/'' @ name"

definition dirname :: "string \<Rightarrow> string" where
  "dirname p = rev (drop 1 (dropWhile (\<lambda>c. c \<noteq> CHR ''/'') (rev p)))"

definition CLAUDE_DIR :: "string \<Rightarrow> string" where "CLAUDE_DIR home = path_join home ''.claude''"
definition CODEX_DIR :: "string \<Rightarrow> string" where "CODEX_DIR home = path_join home ''.codex''"
definition GEMINI_DIR :: "string \<Rightarrow> string" where "GEMINI_DIR home = path_join home ''.gemini''"
definition CLAUDE_SETTINGS :: "string \<Rightarrow> string" where
  "CLAUDE_SETTINGS home = path_join (CLAUDE_DIR home) ''settings.json''"
definition CODEX_CONFIG :: "string \<Rightarrow> string" where
  "CODEX_CONFIG home = path_join (CODEX_DIR home) ''config.toml''"
definition GEMINI_SETTINGS :: "string \<Rightarrow> string" where
  "GEMINI_SETTINGS home = path_join (GEMINI_DIR home) ''settings.json''"

subsection \<open>\<^verbatim>\<open>ensureDir\<close>, \<^verbatim>\<open>readJsonFile\<close>, \<^verbatim>\<open>writeJsonFile\<close>\<close>

definition ensureDir :: "string \<Rightarrow> unit io" where
  "ensureDir dir = fs_mkdir dir"

text \<open>\<^verbatim>\<open>readJsonFile\<close> catches everything: a file that is missing or does not parse reads as
  \<^verbatim>\<open>{}\<close>.\<close>

definition readJsonFile :: "(string \<Rightarrow> json option) \<Rightarrow> string \<Rightarrow> json io" where
  "readJsonFile parse filePath w =
     (case files w filePath of
        None \<Rightarrow> (Inr (JObj []), w)
      | Some content \<Rightarrow> (case parse content of None \<Rightarrow> (Inr (JObj []), w) | Some j \<Rightarrow> (Inr j, w)))"

definition writeJsonFile :: "(json \<Rightarrow> string) \<Rightarrow> string \<Rightarrow> json \<Rightarrow> unit io" where
  "writeJsonFile stringify filePath data =
     then_io (ensureDir (dirname filePath))
       (then_io (fs_writeFile (filePath @ ''.tmp'') (stringify data))
          (fs_rename (filePath @ ''.tmp'') filePath))"

subsection \<open>\<^verbatim>\<open>applyProviderConfig\<close>\<close>

text \<open>Decimal digits of an array index, for the members a spread takes from an array or a
  string.\<close>

fun show_nat :: "nat \<Rightarrow> string" where
  "show_nat n =
     (if n < 10 then [char_of (48 + n)] else show_nat (n div 10) @ [char_of (48 + n mod 10)])"

text \<open>The own enumerable members \<^verbatim>\<open>{ ...x }\<close> copies from \<open>x\<close>.\<close>

fun spread :: "json option \<Rightarrow> (string \<times> json) list" where
  "spread (Some (JObj kvs)) = kvs"
| "spread (Some (JArr xs)) = zip (map show_nat [0..<length xs]) xs"
| "spread (Some (JStr s)) = zip (map show_nat [0..<length s]) (map (\<lambda>c. JStr [c]) s)"
| "spread _ = []"

text \<open>\<^verbatim>\<open>{ ...settings.env, ...env }\<close>: the members of the first, then those of \<open>env\<close> defined
  over them one by one.\<close>

definition merged_env :: "json option \<Rightarrow> (string \<times> string) list \<Rightarrow> (string \<times> json) list" where
  "merged_env old env = fold (\<lambda>kv acc. AList.update (fst kv) (JStr (snd kv)) acc) env (spread old)"

text \<open>
  \<^verbatim>\<open>settings.env = { ...settings.env, ...env }\<close> on what \<^verbatim>\<open>readJsonFile\<close> gave. On an object
  it defines or overwrites the member. Reading \<^verbatim>\<open>.env\<close> of \<^verbatim>\<open>null\<close> throws, and so does, in
  module code, the assignment to a boolean, a number or a string. On an array the assignment
  succeeds, but \<^verbatim>\<open>JSON.stringify\<close> writes an array without such a member.
\<close>

fun assign_env :: "json \<Rightarrow> (string \<times> string) list \<Rightarrow> js_error + json" where
  "assign_env (JObj kvs) env = Inr (JObj (AList.update ''env'' (JObj (merged_env (map_of kvs ''env'') env)) kvs))"
| "assign_env (JArr xs) env = Inr (JArr xs)"
| "assign_env _ env = Inl TypeError"

text \<open>\<^verbatim>\<open>for (const [key, value] of Object.entries(env)) process.env[key] = value\<close>.\<close>

fun export_env :: "(string \<times> string) list \<Rightarrow> unit io" where
  "export_env [] = return_io ()"
| "export_env (kv # kvs) = then_io (set_process_env (fst kv) (snd kv)) (export_env kvs)"

text \<open>\<^verbatim>\<open>envLines.join('\n')\<close>.\<close>

fun join_lines :: "string list \<Rightarrow> string" where
  "join_lines [] = []"
| "join_lines [l] = l"
| "join_lines (l # ls) = l @ [CHR 0x0A] @ join_lines ls"

definition merge_settings ::
  "(string \<Rightarrow> json option) \<Rightarrow> (json \<Rightarrow> string) \<Rightarrow> string \<Rightarrow> (string \<times> string) list \<Rightarrow> unit io" where
  "merge_settings parse stringify settingsPath env =
     bind_io (readJsonFile parse settingsPath)
       (\<lambda>settings. case assign_env settings env of
            Inl e \<Rightarrow> throw_io e
          | Inr settings' \<Rightarrow> writeJsonFile stringify settingsPath settings')"

definition applyProviderConfig ::
  "(string \<Rightarrow> json option) \<Rightarrow> (json \<Rightarrow> string) \<Rightarrow> string \<Rightarrow> provider \<Rightarrow> string \<Rightarrow> unit io" where
  "applyProviderConfig parse stringify home provider appType =
     (let config = snd provider; env = env_of config in
      if appType = ''claude'' then
        then_io (ensureDir (CLAUDE_DIR home))
          (then_io (merge_settings parse stringify (CLAUDE_SETTINGS home) env)
             (export_env env))
      else if appType = ''codex'' then
        then_io (ensureDir (CODEX_DIR home))
          (then_io
             (case cfg_configToml config of
                None \<Rightarrow> return_io ()
              | Some toml \<Rightarrow> if toml = [] then return_io () else fs_writeFile (CODEX_CONFIG home) toml)
             (case env_truthy env ''OPENAI_API_KEY'' of
                None \<Rightarrow> return_io ()
              | Some key \<Rightarrow>
                  writeJsonFile stringify (path_join (CODEX_DIR home) ''auth.json'')
                    (JObj [(''api_key'', JStr key)])))
      else if appType = ''gemini'' then
        then_io (ensureDir (GEMINI_DIR home))
          (then_io (merge_settings parse stringify (GEMINI_SETTINGS home) env)
             (fs_writeFile (path_join (GEMINI_DIR home) ''.env'')
                (join_lines (map (\<lambda>kv. fst kv @ ''='' @ snd kv) env))))
      else return_io ())"

subsection \<open>\<^verbatim>\<open>POST /providers/:id/switch\<close>\<close>

record switched =
  sw_id :: "string option"
  sw_name :: string
  sw_baseUrl :: "string option"
  sw_model :: "string option"

text \<open>The route looks the provider up by id alone, switches, applies, and answers. What
  \<^verbatim>\<open>applyProviderConfig\<close> throws becomes a 500; the switch stays committed.\<close>

definition switch_route ::
  "(string \<Rightarrow> settings_config option) \<Rightarrow> (string \<Rightarrow> json option) \<Rightarrow> (json \<Rightarrow> string) \<Rightarrow> string \<Rightarrow>
   string \<Rightarrow> string option \<Rightarrow> provider_row list \<Rightarrow> world \<Rightarrow> switched response \<times> provider_row list \<times> world" where
  "switch_route parse_config parse stringify home i app tbl w =
     (let appType = str_or app ''claude'' (\<lambda>x. x) in
      case ccProvidersDb_getById parse_config (Some i) tbl of
        Inl e \<Rightarrow> (Error500, tbl, w)
      | Inr None \<Rightarrow> (NotFound404, tbl, w)
      | Inr (Some provider) \<Rightarrow>
          (let tbl' = snd (ccProvidersDb_switchTo i (Some appType) tbl) in
           case applyProviderConfig parse stringify home provider appType w of
             (Inl e, w') \<Rightarrow> (Error500, tbl', w')
           | (Inr u, w') \<Rightarrow>
               (Ok200 \<lparr> sw_id = p_id (fst provider), sw_name = p_name (fst provider),
                         sw_baseUrl = js_or (cfg_env (snd provider)) [''ANTHROPIC_BASE_URL'', ''OPENAI_BASE_URL''],
                         sw_model = js_or (cfg_env (snd provider)) [''ANTHROPIC_MODEL'', ''OPENAI_MODEL''] \<rparr>,
                tbl', w')))"


subsection \<open>Example worlds\<close>

text \<open>A codex provider that carries a \<^verbatim>\<open>configToml\<close>, a gemini provider with one variable, and
  a home directory in which both apps have their files.\<close>

definition codex_provider :: provider where
  "codex_provider =
     (example_row ''C'' ''codex'' False,
      \<lparr> cfg_env = Some [], cfg_configToml = Some ''model = new'', cfg_other = [] \<rparr>)"

definition gemini_provider :: provider where
  "gemini_provider =
     (example_row ''G'' ''gemini'' False,
      \<lparr> cfg_env = Some [(''GEMINI_MODEL'', ''flash'')], cfg_configToml = None, cfg_other = [] \<rparr>)"

definition world_before :: "nat option \<Rightarrow> world" where
  "world_before n =
     \<lparr> files = [CODEX_CONFIG ''/home/u'' \<mapsto> ''model = old'',
                 path_join (GEMINI_DIR ''/home/u'') ''.env'' \<mapsto> ''GEMINI_MODEL=pro''],
       process_env = Map.empty, fuel = n \<rparr>"

definition no_parse :: "string \<Rightarrow> json option" where
  "no_parse s = None"

text \<open>A compact rendering of documents for the examples (strings without escapes, every
  number as 0), and a parser that knows the one settings file of the merge scenario.\<close>

fun render :: "json \<Rightarrow> string"
  and render_items :: "json list \<Rightarrow> string"
  and render_members :: "(string \<times> json) list \<Rightarrow> string" where
  "render JNull = ''null''"
| "render (JBool b) = (if b then ''true'' else ''false'')"
| "render (JNum n) = ''0''"
| "render (JStr s) = [CHR 0x22] @ s @ [CHR 0x22]"
| "render (JArr xs) = ''['' @ render_items xs @ '']''"
| "render (JObj kvs) = ''{'' @ render_members kvs @ ''}''"
| "render_items [] = []"
| "render_items [x] = render x"
| "render_items (x # y # xs) = render x @ '','' @ render_items (y # xs)"
| "render_members [] = []"
| "render_members [kv] = [CHR 0x22] @ fst kv @ [CHR 0x22] @ '':'' @ render (snd kv)"
| "render_members (kv # kv' # kvs) =
     [CHR 0x22] @ fst kv @ [CHR 0x22] @ '':'' @ render (snd kv) @ '','' @ render_members (kv' # kvs)"

definition settings_FOO_BAR :: json where
  "settings_FOO_BAR = JObj [(''env'', JObj [(''FOO'', JStr ''1''), (''BAR'', JStr ''2'')])]"

definition parse_known :: "string \<Rightarrow> json option" where
  "parse_known s = (if s = render settings_FOO_BAR then Some settings_FOO_BAR else None)"

definition world_FOO_BAR :: world where
  "world_FOO_BAR =
     \<lparr> files = [CLAUDE_SETTINGS ''/home/u'' \<mapsto> render settings_FOO_BAR],
       process_env = Map.empty, fuel = None \<rparr>"

definition provider_BAR_BAZ :: provider where
  "provider_BAR_BAZ =
     (example_row ''A'' ''claude'' True,
      \<lparr> cfg_env = Some [(''BAR'', ''9''), (''BAZ'', ''3'')], cfg_configToml = None, cfg_other = [] \<rparr>)"

text \<open>A parser for two settings files that hold JSON which is not an object, and the home
  directory in which the claude settings file has a given content.\<close>

definition parse_literals :: "string \<Rightarrow> json option" where
  "parse_literals s =
     (if s = ''[]'' then Some (JArr []) else if s = ''null'' then Some JNull else None)"

definition world_holding :: "string \<Rightarrow> world" where
  "world_holding content =
     \<lparr> files = [CLAUDE_SETTINGS ''/home/u'' \<mapsto> content], process_env = Map.empty, fuel = None \<rparr>"




section \<open>Properties of the provider table\<close>

lemma switch_row_id: "p_id (set_row i a (clear_row a r)) = p_id r"
  by (simp add: set_row_def clear_row_def)

lemma switch_row_app: "p_app_type (set_row i a (clear_row a r)) = p_app_type r"
  by (simp add: set_row_def clear_row_def)

lemma switch_row_current:
  "p_is_current (set_row i a (clear_row a r)) =
     (if p_app_type r = a then p_id r = Some i else p_is_current r)"
  by (simp add: set_row_def clear_row_def)

lemma switch_row_other: "p_app_type r \<noteq> a \<Longrightarrow> set_row i a (clear_row a r) = r"
  by (simp add: set_row_def clear_row_def)

lemma switch_as_map:
  "set_current i a (clear_current a tbl) = map (\<lambda>r. set_row i a (clear_row a r)) tbl"
  by (simp add: set_current_def clear_current_def)

lemma switch_ids: "map p_id (set_current i a (clear_current a tbl)) = map p_id tbl"
  by (simp add: switch_as_map switch_row_id)

lemma switch_current_rows:
  "map p_id (current_of a (set_current i a (clear_current a tbl))) =
     map p_id (filter (\<lambda>r. p_id r = Some i \<and> p_app_type r = a) tbl)"
  by (induction tbl)
     (simp_all add: switch_as_map current_of_def switch_row_id switch_row_app switch_row_current)

lemma distinct_key_filter:
  "distinct (map f xs) \<Longrightarrow>
     map f (filter (\<lambda>r. f r = i \<and> Q r) xs) = (if \<exists>r\<in>set xs. f r = i \<and> Q r then [i] else [])"
proof (induction xs)
  case Nil
  show ?case by simp
next
  case (Cons x xs)
  show ?case
  proof (cases "f x = i")
    case True
    from Cons.prems have "f x \<notin> f ` set xs" by simp
    with True have "\<forall>r\<in>set xs. f r \<noteq> i" by blast
    then have "filter (\<lambda>r. f r = i \<and> Q r) xs = []" by (simp add: filter_empty_conv)
    moreover from \<open>\<forall>r\<in>set xs. f r \<noteq> i\<close> have "\<not> (\<exists>r\<in>set xs. f r = i \<and> Q r)" by blast
    ultimately show ?thesis using True by simp
  next
    case False
    with Cons show ?thesis by simp
  qed
qed

lemma set_ids: "set (ids tbl) = {i. Some i \<in> p_id ` set tbl}"
proof (induction tbl)
  case Nil
  show ?case by simp
next
  case (Cons r tbl)
  show ?case
  proof (cases "p_id r")
    case None
    then show ?thesis using Cons.IH by auto
  next
    case (Some j)
    then show ?thesis using Cons.IH by auto
  qed
qed

lemma ids_cong: "map p_id xs = map p_id ys \<Longrightarrow> ids xs = ids ys"
proof (induction xs arbitrary: ys)
  case Nil
  then show ?case by simp
next
  case (Cons x xs)
  then obtain y ys' where y: "ys = y # ys'" by (cases ys) auto
  with Cons.prems have "p_id x = p_id y" and "map p_id xs = map p_id ys'" by simp_all
  then show ?case using Cons.IH [of ys'] by (simp add: y split: option.splits)
qed

lemma ids_append: "ids (xs @ ys) = ids xs @ ids ys"
  by (induction xs) (simp_all split: option.splits)

lemma ids_delete: "ids (filter (\<lambda>r. p_id r \<noteq> Some i) tbl) = filter (\<lambda>j. j \<noteq> i) (ids tbl)"
  by (induction tbl) (simp_all split: option.splits)

lemma unique_key_filter:
  "distinct (ids xs) \<Longrightarrow>
     map p_id (filter (\<lambda>r. p_id r = Some i \<and> Q r) xs)
       = (if \<exists>r\<in>set xs. p_id r = Some i \<and> Q r then [Some i] else [])"
proof (induction xs)
  case Nil
  show ?case by simp
next
  case (Cons x xs)
  show ?case
  proof (cases "p_id x = Some i")
    case True
    from Cons.prems True have "i \<notin> set (ids xs)" by simp
    then have notin: "Some i \<notin> p_id ` set xs" by (simp add: set_ids)
    have none: "\<forall>r\<in>set xs. p_id r \<noteq> Some i"
    proof (intro ballI notI)
      fix r
      assume r: "r \<in> set xs" and e: "p_id r = Some i"
      from r have "p_id r \<in> p_id ` set xs" by (rule imageI)
      with e notin show False by simp
    qed
    then have "filter (\<lambda>r. p_id r = Some i \<and> Q r) xs = []" by (simp add: filter_empty_conv)
    moreover from none have "\<not> (\<exists>r\<in>set xs. p_id r = Some i \<and> Q r)" by blast
    ultimately show ?thesis using True by simp
  next
    case False
    from Cons.prems have "distinct (ids xs)" by (simp split: option.splits)
    with Cons.IH False show ?thesis by simp
  qed
qed

lemma switch_current_ids:
  "unique_ids tbl \<Longrightarrow>
   map p_id (current_of a (set_current i a (clear_current a tbl))) =
     (if \<exists>r\<in>set tbl. p_id r = Some i \<and> p_app_type r = a then [Some i] else [])"
  unfolding unique_ids_def by (simp only: switch_current_rows unique_key_filter)

lemma switch_other_app:
  "b \<noteq> a \<Longrightarrow> current_of b (set_current i a (clear_current a tbl)) = current_of b tbl"
  by (induction tbl)
     (simp_all add: switch_as_map current_of_def switch_row_app switch_row_current switch_row_other)

lemma switch_length:
  assumes "unique_ids tbl"
  shows "length (current_of a (set_current i a (clear_current a tbl))) \<le> 1"
proof -
  have "length (map p_id (current_of a (set_current i a (clear_current a tbl)))) \<le> 1"
    unfolding switch_current_ids [OF assms] by simp
  then show ?thesis by simp
qed

lemma single_current_all: "single_current tbl = (\<forall>a. length (current_of a tbl) \<le> 1)"
proof
  assume h: "single_current tbl"
  show "\<forall>a. length (current_of a tbl) \<le> 1"
  proof
    fix a
    show "length (current_of a tbl) \<le> 1"
    proof (cases "a \<in> p_app_type ` set tbl")
      case True with h show ?thesis unfolding single_current_def by blast
    next
      case False
      then have "current_of a tbl = []" by (auto simp: current_of_def filter_empty_conv)
      then show ?thesis by simp
    qed
  qed
qed (simp add: single_current_def)

lemma switchTo_ok:
  assumes "unique_ids tbl" "single_current tbl"
  shows "single_current (snd (ccProvidersDb_switchTo i appType tbl))"
  unfolding single_current_all
proof
  fix b
  show "length (current_of b (snd (ccProvidersDb_switchTo i appType tbl))) \<le> 1"
  proof (cases "b = app_or_default appType")
    case True
    then show ?thesis using switch_length [OF assms(1)] by (simp add: ccProvidersDb_switchTo_def)
  next
    case False
    then show ?thesis using assms(2) by (simp add: ccProvidersDb_switchTo_def switch_other_app single_current_all)
  qed
qed

lemma current_of_filter: "current_of a (filter P tbl) = filter P (current_of a tbl)"
  by (induction tbl) (simp_all add: current_of_def)

lemma delete_ok:
  assumes "single_current tbl"
  shows "single_current (snd (ccProvidersDb_delete i tbl))"
  unfolding single_current_all
proof
  fix b
  have "length (filter (\<lambda>r. p_id r \<noteq> Some i) (current_of b tbl)) \<le> length (current_of b tbl)"
    by (rule length_filter_le)
  also have "\<dots> \<le> 1" using assms by (simp add: single_current_all)
  finally show "length (current_of b (snd (ccProvidersDb_delete i tbl))) \<le> 1"
    by (simp add: ccProvidersDb_delete_def current_of_filter)
qed

lemma switchTo_unique: "unique_ids tbl \<Longrightarrow> unique_ids (snd (ccProvidersDb_switchTo i appType tbl))"
proof -
  have "ids (set_current i (app_or_default appType) (clear_current (app_or_default appType) tbl)) = ids tbl"
    by (rule ids_cong) (rule switch_ids)
  then show "unique_ids tbl \<Longrightarrow> unique_ids (snd (ccProvidersDb_switchTo i appType tbl))"
    by (simp add: unique_ids_def ccProvidersDb_switchTo_def)
qed

lemma delete_unique: "unique_ids tbl \<Longrightarrow> unique_ids (snd (ccProvidersDb_delete i tbl))"
  by (simp add: unique_ids_def ccProvidersDb_delete_def ids_delete)

lemma upsert_update_sel:
  "p_id (upsert_update stringify now a n r) = p_id r"
  "p_app_type (upsert_update stringify now a n r) = p_app_type r"
  "p_created_at (upsert_update stringify now a n r) = p_created_at r"
  "p_is_current (upsert_update stringify now a n r) = truthy (a_is_current a)"
  by (simp_all add: upsert_update_def)

lemma upsert_insert_sel:
  "p_id (upsert_insert stringify now a n) = a_id a"
  "p_app_type (upsert_insert stringify now a n) = app_or_default (a_app_type a)"
  "p_created_at (upsert_insert stringify now a n) = now"
  "p_is_current (upsert_insert stringify now a n) = truthy (a_is_current a)"
  by (simp_all add: upsert_insert_def)



lemma upsert_fails: "a_name a = None \<Longrightarrow> ccProvidersDb_upsert stringify now a tbl = Inl ConstraintError"
  by (simp add: ccProvidersDb_upsert_def)

lemma upsert_replaces:
  "a_name a = Some n \<Longrightarrow> a_id a \<noteq> None \<Longrightarrow> a_id a \<in> p_id ` set tbl \<Longrightarrow>
   ccProvidersDb_upsert stringify now a tbl =
     Inr (map (\<lambda>r. if p_id r = a_id a then upsert_update stringify now a n r else r) tbl)"
  by (simp add: ccProvidersDb_upsert_def)

lemma upsert_inserts:
  "a_name a = Some n \<Longrightarrow> \<not> (a_id a \<noteq> None \<and> a_id a \<in> p_id ` set tbl) \<Longrightarrow>
   ccProvidersDb_upsert stringify now a tbl = Inr (tbl @ [upsert_insert stringify now a n])"
  by (simp add: ccProvidersDb_upsert_def)

lemma replace_ids:
  "map p_id (map (\<lambda>r. if p_id r = k then upsert_update stringify now a n r else r) tbl) = map p_id tbl"
  by (induction tbl) (simp_all add: upsert_update_sel)


lemma upsert_unique:
  assumes "unique_ids tbl"
  shows "unique_ids (apply_op stringify (Upsert now a) tbl)"
proof (cases "a_name a")
  case None
  then show ?thesis using assms by (simp add: upsert_fails)
next
  case (Some n)
  show ?thesis
  proof (cases "a_id a \<noteq> None \<and> a_id a \<in> p_id ` set tbl")
    case True
    have "ids (map (\<lambda>r. if p_id r = a_id a then upsert_update stringify now a n r else r) tbl) = ids tbl"
      by (rule ids_cong) (rule replace_ids)
    then show ?thesis using True assms Some by (simp add: upsert_replaces unique_ids_def)
  next
    case False
    have t: "apply_op stringify (Upsert now a) tbl = tbl @ [upsert_insert stringify now a n]"
      using False Some by (simp add: upsert_inserts)
    show ?thesis
    proof (cases "a_id a")
      case None
      then show ?thesis unfolding t using assms
        by (simp add: unique_ids_def ids_append upsert_insert_sel)
    next
      case (Some j)
      with False have "Some j \<notin> p_id ` set tbl" by simp
      then have "j \<notin> set (ids tbl)" by (simp add: set_ids)
      then show ?thesis unfolding t using assms Some
        by (simp add: unique_ids_def ids_append upsert_insert_sel)
    qed
  qed
qed

lemma filter_length_mono:
  "(\<And>x. x \<in> set xs \<Longrightarrow> P x \<Longrightarrow> Q x) \<Longrightarrow> length (filter P xs) \<le> length (filter Q xs)"
proof (induction xs)
  case Nil
  show ?case by simp
next
  case (Cons x xs)
  have "length (filter P xs) \<le> length (filter Q xs)" by (rule Cons.IH) (simp add: Cons.prems)
  moreover have "P x \<Longrightarrow> Q x" by (rule Cons.prems) simp_all
  ultimately show ?case by auto
qed

text \<open>An upsert that carries no truthy \<^verbatim>\<open>is_current\<close> adds no current provider.\<close>

lemma upsert_ok:
  assumes "\<not> truthy (a_is_current a)" and "single_current tbl"
  shows "single_current (apply_op stringify (Upsert now a) tbl)"
proof (cases "a_name a")
  case None
  then show ?thesis using assms(2) by (simp add: upsert_fails)
next
  case (Some n)
  show ?thesis
  proof (cases "a_id a \<noteq> None \<and> a_id a \<in> p_id ` set tbl")
    case True
    let ?g = "\<lambda>r. if p_id r = a_id a then upsert_update stringify now a n r else r"
    have t: "apply_op stringify (Upsert now a) tbl = map ?g tbl"
      using True Some by (simp add: upsert_replaces)
    show ?thesis unfolding single_current_all
    proof
      fix b
      have "length (current_of b (map ?g tbl))
          = length (filter (\<lambda>r. p_app_type (?g r) = b \<and> p_is_current (?g r)) tbl)"
        by (simp add: current_of_def filter_map comp_def)
      also have "\<dots> \<le> length (filter (\<lambda>r. p_app_type r = b \<and> p_is_current r) tbl)"
      proof (rule filter_length_mono)
        fix r
        assume "p_app_type (?g r) = b \<and> p_is_current (?g r)"
        then show "p_app_type r = b \<and> p_is_current r"
          using assms(1) by (cases "p_id r = a_id a") (simp_all add: upsert_update_sel)
      qed
      also have "\<dots> \<le> 1" using assms(2) by (simp add: single_current_all current_of_def)
      finally show "length (current_of b (apply_op stringify (Upsert now a) tbl)) \<le> 1"
        by (simp only: t)
    qed
  next
    case False
    then have t: "apply_op stringify (Upsert now a) tbl = tbl @ [upsert_insert stringify now a n]"
      using Some by (simp add: upsert_inserts)
    show ?thesis unfolding single_current_all
    proof
      fix b
      have "current_of b (tbl @ [upsert_insert stringify now a n]) = current_of b tbl"
        using assms(1) by (simp add: current_of_def upsert_insert_sel)
      then show "length (current_of b (apply_op stringify (Upsert now a) tbl)) \<le> 1"
        unfolding t using assms(2) by (simp add: single_current_all)
    qed
  qed
qed

text \<open>The store operations keep the ids unique, as the primary key demands.\<close>

lemma apply_op_unique: "unique_ids tbl \<Longrightarrow> unique_ids (apply_op stringify op tbl)"
proof (cases op)
  case (Upsert now a)
  assume "unique_ids tbl"
  then show ?thesis unfolding Upsert by (rule upsert_unique)
next
  case (SwitchTo i appType)
  assume "unique_ids tbl"
  then show ?thesis unfolding SwitchTo by (simp add: switchTo_unique)
next
  case (Delete i)
  assume "unique_ids tbl"
  then show ?thesis unfolding Delete by (simp add: delete_unique)
qed

lemma run_ops_unique: "unique_ids tbl \<Longrightarrow> unique_ids (run_ops stringify ops tbl)"
proof (induction ops arbitrary: tbl)
  case Nil
  then show ?case by (simp add: run_ops_def)
next
  case (Cons op ops)
  from Cons.prems have "unique_ids (apply_op stringify op tbl)" by (rule apply_op_unique)
  then have "unique_ids (run_ops stringify ops (apply_op stringify op tbl))" by (rule Cons.IH)
  then show ?case by (simp add: run_ops_def)
qed

lemma run_ops_ok:
  "unique_ids tbl \<Longrightarrow> single_current tbl \<Longrightarrow> \<not> list_ex sets_current ops \<Longrightarrow>
     single_current (run_ops stringify ops tbl)"
proof (induction ops arbitrary: tbl)
  case Nil
  then show ?case by (simp add: run_ops_def)
next
  case (Cons op ops)
  from Cons.prems(3) have nu: "\<not> sets_current op" and rest: "\<not> list_ex sets_current ops" by simp_all
  have u: "unique_ids (apply_op stringify op tbl)" using Cons.prems(1) by (rule apply_op_unique)
  have "single_current (apply_op stringify op tbl)"
  proof (cases op)
    case (Upsert now a)
    with nu have "\<not> truthy (a_is_current a)" by simp
    then show ?thesis unfolding Upsert using Cons.prems(2) by (rule upsert_ok)
  next
    case (SwitchTo i appType)
    then show ?thesis using Cons.prems(1,2) by (simp add: switchTo_ok)
  next
    case (Delete i)
    then show ?thesis using Cons.prems(2) by (simp add: delete_ok)
  qed
  from u this rest have "single_current (run_ops stringify ops (apply_op stringify op tbl))"
    by (rule Cons.IH)
  then show ?case by (simp add: run_ops_def)
qed

lemma example_row_sel [simp]:
  "p_id (example_row i a c) = Some i" "p_app_type (example_row i a c) = a"
  "p_is_current (example_row i a c) = c"
  by (simp_all add: example_row_def)

text \<open>
  Claim C1, as the code has it. On a table whose ids are unique, \<^verbatim>\<open>switchTo(id, appType)\<close>
  leaves at most one current provider of that app type; when a provider with that id and app
  type exists it is the only current one; an absent \<open>appType\<close> stands for claude; and every
  sequence of \<^verbatim>\<open>upsert\<close>, \<^verbatim>\<open>switchTo\<close> and \<^verbatim>\<open>delete\<close> calls in which no upsert carries a
  truthy \<^verbatim>\<open>is_current\<close> keeps invariant I1 for every app type.
\<close>

theorem switchTo_single_current:
  assumes "unique_ids tbl"
  shows "length (current_of a (snd (ccProvidersDb_switchTo i (Some a) tbl))) \<le> 1
       \<and> ((\<exists>r\<in>set tbl. p_id r = Some i \<and> p_app_type r = a) \<longrightarrow>
            map p_id (current_of a (snd (ccProvidersDb_switchTo i (Some a) tbl))) = [Some i])
       \<and> ccProvidersDb_switchTo i None tbl = ccProvidersDb_switchTo i (Some ''claude'') tbl
       \<and> (single_current tbl \<and> \<not> list_ex sets_current ops \<longrightarrow>
            single_current (run_ops stringify ops tbl))"
proof (intro conjI impI)
  show "length (current_of a (snd (ccProvidersDb_switchTo i (Some a) tbl))) \<le> 1"
    using switch_length [OF assms] by (simp add: ccProvidersDb_switchTo_def app_or_default_def)
next
  assume "\<exists>r\<in>set tbl. p_id r = Some i \<and> p_app_type r = a"
  then show "map p_id (current_of a (snd (ccProvidersDb_switchTo i (Some a) tbl))) = [Some i]"
    using switch_current_ids [OF assms, of a i]
    by (simp add: ccProvidersDb_switchTo_def app_or_default_def)
next
  show "ccProvidersDb_switchTo i None tbl = ccProvidersDb_switchTo i (Some ''claude'') tbl"
    by (simp add: ccProvidersDb_switchTo_def app_or_default_def)
next
  assume "single_current tbl \<and> \<not> list_ex sets_current ops"
  then show "single_current (run_ops stringify ops tbl)"
    using run_ops_ok [OF assms, of ops stringify] by simp
qed

lemma providers_AB_unique: "unique_ids providers_AB"
  by (simp add: providers_AB_def unique_ids_def)

lemma providers_AB_single: "single_current providers_AB"
  by (simp add: providers_AB_def single_current_def current_of_def)

lemma switch_B_then_edit:
  "run_ops (\<lambda>j. ''{}'')
     [SwitchTo ''B'' (Some ''claude''), Upsert 5 (example_arg ''B'' ''claude'' None),
      Upsert 6 (example_arg ''C'' ''codex'' (Some (JBool False))), SwitchTo ''C'' (Some ''codex''),
      Delete ''A'', SwitchTo ''B'' None] providers_AB
   = [(example_row ''B'' ''claude'' True)\<lparr>p_updated_at := 5\<rparr>,
      (example_row ''C'' ''codex'' True)\<lparr>p_created_at := 6, p_updated_at := 6\<rparr>]"
  by (simp add: run_ops_def ccProvidersDb_upsert_def example_arg_def upsert_insert_def
      upsert_update_def app_or_default_def providers_AB_def ccProvidersDb_switchTo_def
      ccProvidersDb_delete_def set_current_def clear_current_def set_row_def clear_row_def
      example_row_def or_empty_object_def configStr_def str_or_def)

theorem switchTo_single_current_witness:
  "unique_ids providers_AB \<and> single_current providers_AB
   \<and> (\<exists>r\<in>set providers_AB. p_id r = Some ''B'' \<and> p_app_type r = ''claude'')
   \<and> current_of ''claude'' (snd (ccProvidersDb_switchTo ''B'' (Some ''claude'') providers_AB))
        = [example_row ''B'' ''claude'' True]
   \<and> map p_is_current (snd (ccProvidersDb_switchTo ''B'' None providers_AB)) = [False, True]
   \<and> \<not> list_ex sets_current
        [SwitchTo ''B'' (Some ''claude''), Upsert 5 (example_arg ''B'' ''claude'' None),
         Upsert 6 (example_arg ''C'' ''codex'' (Some (JBool False))), SwitchTo ''C'' (Some ''codex''),
         Delete ''A'', SwitchTo ''B'' None]
   \<and> single_current
        (run_ops (\<lambda>j. ''{}'')
           [SwitchTo ''B'' (Some ''claude''), Upsert 5 (example_arg ''B'' ''claude'' None),
            Upsert 6 (example_arg ''C'' ''codex'' (Some (JBool False))), SwitchTo ''C'' (Some ''codex''),
            Delete ''A'', SwitchTo ''B'' None] providers_AB)
   \<and> map p_id (current_of ''codex''
        (run_ops (\<lambda>j. ''{}'')
           [SwitchTo ''B'' (Some ''claude''), Upsert 5 (example_arg ''B'' ''claude'' None),
            Upsert 6 (example_arg ''C'' ''codex'' (Some (JBool False))), SwitchTo ''C'' (Some ''codex''),
            Delete ''A'', SwitchTo ''B'' None] providers_AB)) = [Some ''C'']"
proof -
  let ?ops = "[SwitchTo ''B'' (Some ''claude''), Upsert 5 (example_arg ''B'' ''claude'' None),
      Upsert 6 (example_arg ''C'' ''codex'' (Some (JBool False))), SwitchTo ''C'' (Some ''codex''),
      Delete ''A'', SwitchTo ''B'' None]"
  note t = switchTo_single_current [OF providers_AB_unique, of "''claude''" "''B''" ?ops "\<lambda>j. ''{}''"]
  have ex: "\<exists>r\<in>set providers_AB. p_id r = Some ''B'' \<and> p_app_type r = ''claude''"
    by (simp add: providers_AB_def)
  have ev: "snd (ccProvidersDb_switchTo ''B'' (Some ''claude'') providers_AB)
      = [example_row ''A'' ''claude'' False, example_row ''B'' ''claude'' True]"
    by (simp add: providers_AB_def ccProvidersDb_switchTo_def app_or_default_def set_current_def
        clear_current_def set_row_def clear_row_def example_row_def)
  have nu: "\<not> list_ex sets_current ?ops"
    by (simp add: example_arg_def)
  from t have none: "ccProvidersDb_switchTo ''B'' None providers_AB
      = ccProvidersDb_switchTo ''B'' (Some ''claude'') providers_AB" by blast
  from t providers_AB_single nu
  have sc: "single_current (run_ops (\<lambda>j. ''{}'') ?ops providers_AB)" by blast
  have cur: "map p_id (current_of ''codex'' (run_ops (\<lambda>j. ''{}'') ?ops providers_AB)) = [Some ''C'']"
    by (simp only: switch_B_then_edit) (simp add: current_of_def example_row_def)
  have c1: "current_of ''claude'' (snd (ccProvidersDb_switchTo ''B'' (Some ''claude'') providers_AB))
        = [example_row ''B'' ''claude'' True]"
    by (simp add: ev current_of_def)
  have c2: "map p_is_current (snd (ccProvidersDb_switchTo ''B'' None providers_AB)) = [False, True]"
    by (simp add: none ev)
  from providers_AB_unique providers_AB_single ex c1 c2 nu sc cur show ?thesis by blast
qed

text \<open>
  Claim C1 as stated fails: two upserts that carry \<^verbatim>\<open>is_current\<close> leave two current
  providers of one app type, and a switch to an id that is absent, or that belongs to another
  app type, leaves none.
\<close>

theorem single_current_counterexample:
  "map p_id (current_of ''claude''
      (run_ops (\<lambda>j. ''{}'')
         [Upsert 1 (example_arg ''A'' ''claude'' (Some (JBool True))),
          Upsert 2 (example_arg ''B'' ''claude'' (Some (JBool True)))] [])) = [Some ''A'', Some ''B'']
   \<and> current_of ''claude'' (snd (ccProvidersDb_switchTo ''ghost'' (Some ''claude'') providers_AB)) = []
   \<and> current_of ''codex'' (snd (ccProvidersDb_switchTo ''A'' (Some ''codex'') providers_AB)) = []"
  by (simp add: run_ops_def ccProvidersDb_upsert_def example_arg_def upsert_insert_def
      current_of_def app_or_default_def providers_AB_def ccProvidersDb_switchTo_def
      set_current_def clear_current_def set_row_def clear_row_def example_row_def)






section \<open>Properties of the prompt table\<close>

lemma enable_row_sel:
  "q_id (enable_row i (disable_row a r)) = q_id r"
  "q_app_type (enable_row i (disable_row a r)) = q_app_type r"
  "q_is_enabled (enable_row i (disable_row a r)) =
     (q_id r = i \<or> (q_app_type r \<noteq> a \<and> q_is_enabled r))"
  by (simp_all add: enable_row_def disable_row_def)

lemma enable_rows_same_app:
  "\<forall>r\<in>set tbl. q_id r = i \<longrightarrow> q_app_type r = a \<Longrightarrow>
   map q_id (enabled_of a (map (enable_row i) (map (disable_row a) tbl))) =
     map q_id (filter (\<lambda>r. q_id r = i \<and> q_app_type r = a) tbl)"
  by (induction tbl) (auto simp: enabled_of_def enable_row_sel)

text \<open>
  Where the prompt with the given id belongs to the app type of the call (or no prompt has
  the id), \<^verbatim>\<open>enable\<close> behaves as \<^verbatim>\<open>switchTo\<close> does: afterwards the enabled prompts of that
  app type are the one with the id, if there is one.
\<close>

lemma enable_same_app:
  assumes "distinct (map q_id tbl)" and "\<forall>r\<in>set tbl. q_id r = i \<longrightarrow> q_app_type r = app_or_default appType"
  shows "map q_id (enabled_of (app_or_default appType) (snd (ccPromptsDb_enable i appType tbl))) =
     (if \<exists>r\<in>set tbl. q_id r = i \<and> q_app_type r = app_or_default appType then [i] else [])"
  using enable_rows_same_app [OF assms(2)] distinct_key_filter [OF assms(1)]
  by (simp add: ccPromptsDb_enable_def)

text \<open>
  Claim C4 at its failing input. P1 and P2 are prompts of app type codex. After
  \<^verbatim>\<open>enable('P1', 'codex')\<close> and \<^verbatim>\<open>enable('P2', 'claude')\<close> both are enabled: the second call
  clears the prompts of claude and then enables P2 by id alone.
\<close>

theorem enable_other_app_two_enabled:
  "map q_id (enabled_of ''codex''
      (snd (ccPromptsDb_enable ''P2'' (Some ''claude'')
         (snd (ccPromptsDb_enable ''P1'' (Some ''codex'') prompts_P1_P2))))) = [''P1'', ''P2'']"
  by (simp add: ccPromptsDb_enable_def prompts_P1_P2_def enabled_of_def app_or_default_def
      enable_row_def disable_row_def example_prompt_def)

section \<open>Properties of the retention trim\<close>

lemma table_order_reorders: "reorders table_order"
  by (simp add: reorders_def table_order_def)

lemma reorders_set: "reorders ties \<Longrightarrow> set (ties xs) = set xs"
  by (simp add: reorders_def)

lemma reorders_length: "reorders ties \<Longrightarrow> length (ties xs) = length xs"
  by (simp add: reorders_def)

lemma reorders_distinct:
  assumes "reorders ties" and "distinct xs"
  shows "distinct (ties xs)"
proof (rule card_distinct)
  have "card (set (ties xs)) = card (set xs)" using assms(1) by (simp add: reorders_set)
  also have "\<dots> = length xs" using assms(2) by (rule distinct_card)
  also have "\<dots> = length (ties xs)" using assms(1) by (simp add: reorders_length)
  finally show "card (set (ties xs)) = length (ties xs)" .
qed

lemma ranked_set: "reorders ties \<Longrightarrow> set (ranked ties p rows) = set (results_of p rows)"
  by (simp add: ranked_def results_of_def reorders_set)

lemma ranked_length: "reorders ties \<Longrightarrow> length (ranked ties p rows) = length (results_of p rows)"
  by (simp add: ranked_def results_of_def reorders_length)

lemma ranked_distinct: "reorders ties \<Longrightarrow> distinct rows \<Longrightarrow> distinct (ranked ties p rows)"
  by (simp add: ranked_def reorders_distinct)

lemma ranked_sorted: "sorted (map (\<lambda>r. - int (s_tested_at r)) (ranked ties p rows))"
  by (simp add: ranked_def)

lemma distinct_rows: "distinct (map s_id rows) \<Longrightarrow> distinct rows"
  by (simp add: distinct_map)

lemma ranked_provider:
  "reorders ties \<Longrightarrow> r \<in> set (ranked ties p rows) \<Longrightarrow> s_provider_id r = p \<and> r \<in> set rows"
  by (simp add: ranked_set results_of_def)

lemma keep_ids_iff:
  assumes t: "reorders ties"
  shows "i \<in> set (keep_ids ties n rows) \<longleftrightarrow> (\<exists>p. \<exists>r\<in>set (take n (ranked ties p rows)). s_id r = i)"
proof
  assume "i \<in> set (keep_ids ties n rows)"
  then show "\<exists>p. \<exists>r\<in>set (take n (ranked ties p rows)). s_id r = i"
    by (auto simp: keep_ids_def)
next
  assume "\<exists>p. \<exists>r\<in>set (take n (ranked ties p rows)). s_id r = i"
  then obtain p r where r: "r \<in> set (take n (ranked ties p rows))" and i: "s_id r = i" by blast
  from r have "r \<in> set (ranked ties p rows)" by (rule in_set_takeD)
  then have "s_provider_id r = p" "r \<in> set rows" using t by (simp_all add: ranked_provider)
  then have "p \<in> set (map s_provider_id rows)" by force
  with r i show "i \<in> set (keep_ids ties n rows)" by (force simp: keep_ids_def)
qed

lemma kept_iff:
  assumes t: "reorders ties" and d: "distinct (map s_id rows)" and r: "r \<in> set rows"
  shows "s_id r \<in> set (keep_ids ties n rows) \<longleftrightarrow> r \<in> set (take n (ranked ties (s_provider_id r) rows))"
proof
  assume "s_id r \<in> set (keep_ids ties n rows)"
  then obtain p r' where r': "r' \<in> set (take n (ranked ties p rows))" and i: "s_id r' = s_id r"
    by (auto simp: keep_ids_iff [OF t])
  from r' have "r' \<in> set (ranked ties p rows)" by (rule in_set_takeD)
  then have p: "s_provider_id r' = p" and "r' \<in> set rows" using t by (simp_all add: ranked_provider)
  with d r i have "r' = r" by (meson distinct_map inj_onD)
  with r' p show "r \<in> set (take n (ranked ties (s_provider_id r) rows))" by simp
next
  assume "r \<in> set (take n (ranked ties (s_provider_id r) rows))"
  then show "s_id r \<in> set (keep_ids ties n rows)" by (auto simp: keep_ids_iff [OF t])
qed

lemma cleanup_results:
  assumes t: "reorders ties" and d: "distinct (map s_id rows)"
  shows "results_of p (ccSpeedTestsDb_cleanup ties k rows) =
           filter (\<lambda>r. r \<in> set (take (keepCount_or_default k) (ranked ties p rows))) (results_of p rows)"
proof -
  have "filter (\<lambda>r. s_provider_id r = p \<and> s_id r \<in> set (keep_ids ties (keepCount_or_default k) rows)) rows
      = filter (\<lambda>r. s_provider_id r = p \<and> r \<in> set (take (keepCount_or_default k) (ranked ties p rows))) rows"
    by (rule filter_cong [OF refl]) (auto simp: kept_iff [OF t d])
  then show ?thesis
    by (simp add: results_of_def ccSpeedTestsDb_cleanup_def conj_commute)
qed

lemma filter_mem_length:
  assumes "distinct xs" "distinct ys" "set ys \<subseteq> set xs"
  shows "length (filter (\<lambda>r. r \<in> set ys) xs) = length ys"
proof -
  have "distinct (filter (\<lambda>r. r \<in> set ys) xs)" using assms(1) by simp
  then have "length (filter (\<lambda>r. r \<in> set ys) xs) = card (set (filter (\<lambda>r. r \<in> set ys) xs))"
    by (rule distinct_card [symmetric])
  also have "set (filter (\<lambda>r. r \<in> set ys) xs) = set ys" using assms(3) by auto
  also have "card (set ys) = length ys" using assms(2) by (simp add: distinct_card)
  finally show ?thesis .
qed

lemma cleanup_count:
  assumes t: "reorders ties" and d: "distinct (map s_id rows)"
  shows "length (results_of p (ccSpeedTestsDb_cleanup ties k rows)) =
           min (keepCount_or_default k) (length (results_of p rows))"
proof -
  let ?n = "keepCount_or_default k"
  have dr: "distinct rows" using d by (rule distinct_rows)
  have "distinct (results_of p rows)" using dr by (simp add: results_of_def)
  moreover have "distinct (take ?n (ranked ties p rows))" using t dr by (simp add: ranked_distinct)
  moreover have "set (take ?n (ranked ties p rows)) \<subseteq> set (results_of p rows)"
    using set_take_subset [of ?n "ranked ties p rows"] t by (simp add: ranked_set)
  ultimately have "length (filter (\<lambda>r. r \<in> set (take ?n (ranked ties p rows))) (results_of p rows))
      = length (take ?n (ranked ties p rows))"
    by (rule filter_mem_length)
  then show ?thesis using t by (simp add: cleanup_results [OF t d] ranked_length)
qed

lemma sorted_take_drop:
  assumes "sorted (map f xs)" "a \<in> set (take n xs)" "b \<in> set (drop n xs)"
  shows "f a \<le> f b"
proof -
  have "sorted (map f (take n xs) @ map f (drop n xs))"
    using assms(1) by (simp only: map_append [symmetric] append_take_drop_id)
  then show ?thesis using assms(2,3) by (auto simp: sorted_append)
qed

lemma cleanup_most_recent:
  assumes t: "reorders ties" and d: "distinct (map s_id rows)"
    and kept: "x \<in> set (results_of p (ccSpeedTestsDb_cleanup ties k rows))"
    and gone: "y \<in> set (results_of p rows)" "y \<notin> set (results_of p (ccSpeedTestsDb_cleanup ties k rows))"
  shows "s_tested_at y \<le> s_tested_at x"
proof -
  let ?n = "keepCount_or_default k"
  from kept have x: "x \<in> set (take ?n (ranked ties p rows))" by (simp add: cleanup_results [OF t d])
  from gone have "y \<notin> set (take ?n (ranked ties p rows))" by (simp add: cleanup_results [OF t d])
  moreover from gone(1) t have "y \<in> set (take ?n (ranked ties p rows) @ drop ?n (ranked ties p rows))"
    by (simp add: ranked_set)
  ultimately have y: "y \<in> set (drop ?n (ranked ties p rows))" by (simp only: set_append) blast
  from sorted_take_drop [OF ranked_sorted x y] show ?thesis by simp
qed

lemma cleanup_subset: "set (ccSpeedTestsDb_cleanup ties k rows) \<subseteq> set rows"
  by (simp add: ccSpeedTestsDb_cleanup_def)

lemma cleanup_distinct:
  "distinct (map s_id rows) \<Longrightarrow> distinct (map s_id (ccSpeedTestsDb_cleanup ties k rows))"
  by (simp add: ccSpeedTestsDb_cleanup_def distinct_map_filter)

lemma cleanup_fixpoint:
  assumes t: "reorders ties" and d: "distinct (map s_id rows)"
    and small: "\<forall>p. length (results_of p rows) \<le> keepCount_or_default k"
  shows "ccSpeedTestsDb_cleanup ties k rows = rows"
proof -
  have "\<forall>r\<in>set rows. s_id r \<in> set (keep_ids ties (keepCount_or_default k) rows)"
  proof
    fix r assume r: "r \<in> set rows"
    let ?p = "s_provider_id r"
    from small t have "length (ranked ties ?p rows) \<le> keepCount_or_default k" by (simp add: ranked_length)
    then have "take (keepCount_or_default k) (ranked ties ?p rows) = ranked ties ?p rows" by simp
    moreover from r t have "r \<in> set (ranked ties ?p rows)" by (simp add: ranked_set results_of_def)
    ultimately show "s_id r \<in> set (keep_ids ties (keepCount_or_default k) rows)"
      by (simp add: kept_iff [OF t d r])
  qed
  then show ?thesis by (simp add: ccSpeedTestsDb_cleanup_def filter_id_conv)
qed

lemma cleanup_idem:
  assumes t: "reorders ties" and d: "distinct (map s_id rows)"
  shows "ccSpeedTestsDb_cleanup ties k (ccSpeedTestsDb_cleanup ties k rows) = ccSpeedTestsDb_cleanup ties k rows"
proof (rule cleanup_fixpoint [OF t])
  show "distinct (map s_id (ccSpeedTestsDb_cleanup ties k rows))" using d by (rule cleanup_distinct)
  show "\<forall>p. length (results_of p (ccSpeedTestsDb_cleanup ties k rows)) \<le> keepCount_or_default k"
    by (simp add: cleanup_count [OF t d])
qed

text \<open>
  Claim C9. On a table with unique keys, and whatever the order in which the engine meets
  rows of equal \<^verbatim>\<open>tested_at\<close>, \<^verbatim>\<open>cleanup(N)\<close> leaves, for every provider, \<open>N\<close> rows, or all
  of them when the provider has fewer; it only deletes; every row it leaves for a provider was
  tested no earlier than every row of that provider it deletes; a second run deletes nothing;
  and \<^verbatim>\<open>cleanup()\<close> is \<^verbatim>\<open>cleanup(10)\<close>.
\<close>

theorem cleanup_keeps_most_recent:
  assumes "reorders ties" and "distinct (map s_id rows)"
  shows "(\<forall>p. length (results_of p (ccSpeedTestsDb_cleanup ties (Some (int n)) rows))
              = min n (length (results_of p rows)))
       \<and> set (ccSpeedTestsDb_cleanup ties (Some (int n)) rows) \<subseteq> set rows
       \<and> (\<forall>p x y. x \<in> set (results_of p (ccSpeedTestsDb_cleanup ties (Some (int n)) rows))
              \<and> y \<in> set (results_of p rows)
              \<and> y \<notin> set (results_of p (ccSpeedTestsDb_cleanup ties (Some (int n)) rows))
            \<longrightarrow> s_tested_at y \<le> s_tested_at x)
       \<and> ccSpeedTestsDb_cleanup ties (Some (int n)) (ccSpeedTestsDb_cleanup ties (Some (int n)) rows)
            = ccSpeedTestsDb_cleanup ties (Some (int n)) rows
       \<and> ccSpeedTestsDb_cleanup ties None rows = ccSpeedTestsDb_cleanup ties (Some 10) rows"
proof (intro conjI allI impI)
  fix p
  show "length (results_of p (ccSpeedTestsDb_cleanup ties (Some (int n)) rows))
          = min n (length (results_of p rows))"
    using cleanup_count [OF assms, of p "Some (int n)"] by (simp add: keepCount_or_default_def)
next
  show "set (ccSpeedTestsDb_cleanup ties (Some (int n)) rows) \<subseteq> set rows" by (rule cleanup_subset)
next
  fix p x y
  assume "x \<in> set (results_of p (ccSpeedTestsDb_cleanup ties (Some (int n)) rows))
              \<and> y \<in> set (results_of p rows)
              \<and> y \<notin> set (results_of p (ccSpeedTestsDb_cleanup ties (Some (int n)) rows))"
  then show "s_tested_at y \<le> s_tested_at x"
    using cleanup_most_recent [OF assms] by blast
next
  show "ccSpeedTestsDb_cleanup ties (Some (int n)) (ccSpeedTestsDb_cleanup ties (Some (int n)) rows)
          = ccSpeedTestsDb_cleanup ties (Some (int n)) rows"
    using assms by (rule cleanup_idem)
next
  show "ccSpeedTestsDb_cleanup ties None rows = ccSpeedTestsDb_cleanup ties (Some 10) rows"
    by (simp add: ccSpeedTestsDb_cleanup_def keepCount_or_default_def)
qed

lemma fifteen_ids: "map s_id fifteen_results = [1, 2, 3, 4, 5, 6, 7, 8, 9, 10, 11, 12, 13, 14, 15]"
  by code_simp

lemma fifteen_times:
  "map s_tested_at fifteen_results = [1, 2, 3, 4, 5, 6, 7, 8, 9, 10, 11, 12, 13, 14, 15]"
  by code_simp

lemma fifteen_cleanup:
  "map s_id (ccSpeedTestsDb_cleanup table_order (Some 10) fifteen_results)
     = [6, 7, 8, 9, 10, 11, 12, 13, 14, 15]"
  by code_simp

lemma fifteen_cleanup_times:
  "map s_tested_at (ccSpeedTestsDb_cleanup table_order (Some 10) fifteen_results)
     = [6, 7, 8, 9, 10, 11, 12, 13, 14, 15]"
  by code_simp

lemma fifteen_cleanup_3:
  "map s_id (ccSpeedTestsDb_cleanup table_order (Some 3) fifteen_results) = [13, 14, 15]"
  by code_simp

lemma fifteen_length: "length (results_of ''A'' fifteen_results) = 15"
  by code_simp

theorem cleanup_keeps_most_recent_witness:
  "reorders table_order
   \<and> distinct (map s_id fifteen_results)
   \<and> length (results_of ''A'' fifteen_results) = 15
   \<and> map s_tested_at fifteen_results = [1, 2, 3, 4, 5, 6, 7, 8, 9, 10, 11, 12, 13, 14, 15]
   \<and> length (results_of ''A'' (ccSpeedTestsDb_cleanup table_order (Some 10) fifteen_results)) = 10
   \<and> map s_id (ccSpeedTestsDb_cleanup table_order (Some 10) fifteen_results)
       = [6, 7, 8, 9, 10, 11, 12, 13, 14, 15]
   \<and> map s_tested_at (ccSpeedTestsDb_cleanup table_order (Some 10) fifteen_results)
       = [6, 7, 8, 9, 10, 11, 12, 13, 14, 15]
   \<and> ccSpeedTestsDb_cleanup table_order (Some 10)
        (ccSpeedTestsDb_cleanup table_order (Some 10) fifteen_results)
        = ccSpeedTestsDb_cleanup table_order (Some 10) fifteen_results
   \<and> ccSpeedTestsDb_cleanup table_order None fifteen_results
        = ccSpeedTestsDb_cleanup table_order (Some 10) fifteen_results
   \<and> length (results_of ''A'' (ccSpeedTestsDb_cleanup table_order (Some 3) fifteen_results)) = 3
   \<and> map s_id (ccSpeedTestsDb_cleanup table_order (Some 3) fifteen_results) = [13, 14, 15]"
proof -
  have d: "distinct (map s_id fifteen_results)" by (simp add: fifteen_ids)
  note t10 = cleanup_keeps_most_recent [OF table_order_reorders d, of 10]
  note t3 = cleanup_keeps_most_recent [OF table_order_reorders d, of 3]
  from t10 have "length (results_of ''A'' (ccSpeedTestsDb_cleanup table_order (Some (int 10)) fifteen_results))
          = min 10 (length (results_of ''A'' fifteen_results))" by blast
  then have l10: "length (results_of ''A'' (ccSpeedTestsDb_cleanup table_order (Some 10) fifteen_results)) = 10"
    by (simp add: fifteen_length)
  from t10 have "ccSpeedTestsDb_cleanup table_order (Some (int 10))
        (ccSpeedTestsDb_cleanup table_order (Some (int 10)) fifteen_results)
        = ccSpeedTestsDb_cleanup table_order (Some (int 10)) fifteen_results" by blast
  then have idem: "ccSpeedTestsDb_cleanup table_order (Some 10)
        (ccSpeedTestsDb_cleanup table_order (Some 10) fifteen_results)
        = ccSpeedTestsDb_cleanup table_order (Some 10) fifteen_results" by simp
  from t10 have dflt: "ccSpeedTestsDb_cleanup table_order None fifteen_results
        = ccSpeedTestsDb_cleanup table_order (Some 10) fifteen_results" by blast
  from t3 have "length (results_of ''A'' (ccSpeedTestsDb_cleanup table_order (Some (int 3)) fifteen_results))
          = min 3 (length (results_of ''A'' fifteen_results))" by blast
  then have l3: "length (results_of ''A'' (ccSpeedTestsDb_cleanup table_order (Some 3) fifteen_results)) = 3"
    by (simp add: fifteen_length)
  from table_order_reorders d fifteen_length fifteen_times l10 fifteen_cleanup fifteen_cleanup_times
    idem dflt l3 fifteen_cleanup_3
  show ?thesis by blast
qed

section \<open>Properties of SecretMask and of the environment view\<close>

lemma mask_step_example:
  "mask_env [(''ANTHROPIC_API_KEY'', ''sk-1234567890abcdef''), (''K'', ''KEY=short'')]
     = [(''K'', ''KEY=short''), (''ANTHROPIC_API_KEY_MASKED'', ''sk-12345...cdef'')]"
  by (simp add: mask_env_def mask_step_def sensitive_def mask_value_def)

text \<open>
  Claim C7 at its failing input: an \<^verbatim>\<open>env\<close> that holds both \<^verbatim>\<open>API_KEY\<close> and
  \<^verbatim>\<open>API_KEY_MASKED\<close>, each with a value longer than 12. The first round of the loop
  overwrites the member \<^verbatim>\<open>API_KEY_MASKED\<close> with the masked value of \<^verbatim>\<open>API_KEY\<close>; the second
  round reads that masked value back and masks it again under \<^verbatim>\<open>API_KEY_MASKED_MASKED\<close>. The
  output has no member \<^verbatim>\<open>API_KEY_MASKED\<close>, and the second credential appears nowhere.
\<close>

theorem mask_env_key_collision:
  "mask_env [(''API_KEY'', ''sk-1234567890abcdef''), (''API_KEY_MASKED'', ''tk-abcdefghijklmnop'')]
     = [(''API_KEY_MASKED_MASKED'', ''sk-12345...cdef'')]"
  by (simp add: mask_env_def mask_step_def sensitive_def mask_value_def)

lemma no_collisionD: "no_collision env \<Longrightarrow> masks env k \<Longrightarrow> map_of env (k @ ''_MASKED'') = None"
  by (simp add: no_collision_def)

lemma mask_step_lookup:
  assumes "map_of cur k = map_of env k"
  shows "map_of (mask_step k cur) x =
     (if masks env k then
        (if x = k then None
         else if x = k @ ''_MASKED'' then Some (mask_value (the (map_of env k)))
         else map_of cur x)
      else map_of cur x)"
proof (cases "masks env k")
  case True
  then obtain v where v: "map_of env k = Some v" "12 < length v" "sensitive k"
    by (auto simp: masks_def split: option.splits)
  then have "mask_step k cur = AList.delete k (AList.update (k @ ''_MASKED'') (mask_value v) cur)"
    using assms by (auto simp: mask_step_def)
  then show ?thesis using True v by (simp add: update_conv' delete_conv')
next
  case False
  then have "mask_step k cur = cur"
    using assms by (auto simp: mask_step_def masks_def split: option.splits)
  then show ?thesis using False by simp
qed

lemma mask_fold_lookup:
  assumes nc: "no_collision env"
  shows "\<forall>k\<in>set ks. map_of env k \<noteq> None \<Longrightarrow> distinct ks \<Longrightarrow>
     map_of (fold mask_step ks env) x =
       (if x \<in> set ks \<and> masks env x then None
        else if \<exists>k \<in> set ks. masks env k \<and> x = k @ ''_MASKED''
          then Some (mask_value (the (map_of env (take (length x - 7) x))))
        else map_of env x)"
proof (induction ks arbitrary: x rule: rev_induct)
  case Nil
  show ?case by simp
next
  case (snoc k ks)
  from snoc.prems have sub: "\<forall>k\<in>set ks. map_of env k \<noteq> None" and d: "distinct ks"
    and k: "map_of env k \<noteq> None" and fresh: "k \<notin> set ks"
    by simp_all
  note ih = snoc.IH [OF sub d]
  have not_gen: "\<not> (masks env k' \<and> k = k' @ ''_MASKED'')" for k'
    using no_collisionD [OF nc, of k'] k by auto
  have "map_of (fold mask_step ks env) k =
       (if k \<in> set ks \<and> masks env k then None
        else if \<exists>k' \<in> set ks. masks env k' \<and> k = k' @ ''_MASKED''
          then Some (mask_value (the (map_of env (take (length k - 7) k))))
        else map_of env k)" by (rule ih)
  also have "\<dots> = map_of env k" using fresh not_gen by auto
  finally have cur: "map_of (fold mask_step ks env) k = map_of env k" .
  have step: "map_of (mask_step k (fold mask_step ks env)) y =
     (if masks env k then
        (if y = k then None
         else if y = k @ ''_MASKED'' then Some (mask_value (the (map_of env k)))
         else map_of (fold mask_step ks env) y)
      else map_of (fold mask_step ks env) y)" for y
    by (rule mask_step_lookup [OF cur])
  show ?case
  proof (cases "masks env k")
    case False
    then have "map_of (fold mask_step (ks @ [k]) env) x = map_of (fold mask_step ks env) x"
      by (simp add: step)
    also have "\<dots> = (if x \<in> set ks \<and> masks env x then None
        else if \<exists>k \<in> set ks. masks env k \<and> x = k @ ''_MASKED''
          then Some (mask_value (the (map_of env (take (length x - 7) x))))
        else map_of env x)" by (rule ih)
    finally show ?thesis using False by auto
  next
    case True
    from no_collisionD [OF nc True] have gen_fresh: "map_of env (k @ ''_MASKED'') = None" .
    show ?thesis
    proof (cases "x = k")
      case xk: True
      with True show ?thesis by (simp add: step)
    next
      case xk: False
      show ?thesis
      proof (cases "x = k @ ''_MASKED''")
        case xm: True
        with gen_fresh sub have "x \<notin> set ks" by auto
        with xm xk True show ?thesis by (simp add: step)
      next
        case xm: False
        with xk True have "map_of (fold mask_step (ks @ [k]) env) x = map_of (fold mask_step ks env) x"
          by (simp add: step)
        then show ?thesis using xk xm by (simp add: ih)
      qed
    qed
  qed
qed

lemma mask_env_lookup:
  assumes "distinct (map fst env)" and "no_collision env"
  shows "map_of (mask_env env) x =
       (if masks env x then None
        else if \<exists>k. masks env k \<and> x = k @ ''_MASKED''
          then Some (mask_value (the (map_of env (take (length x - 7) x))))
        else map_of env x)"
proof -
  have present: "\<forall>k\<in>set (map fst env). map_of env k \<noteq> None"
    by (simp add: map_of_eq_None_iff)
  have keys: "masks env k \<Longrightarrow> k \<in> set (map fst env)" for k
  proof -
    assume "masks env k"
    then have "map_of env k \<noteq> None" by (auto simp: masks_def split: option.splits)
    then show "k \<in> set (map fst env)" by (simp add: map_of_eq_None_iff)
  qed
  from keys have a: "(x \<in> set (map fst env) \<and> masks env x) = masks env x" by blast
  from keys have b: "(\<exists>k \<in> set (map fst env). masks env k \<and> x = k @ ''_MASKED'')
      = (\<exists>k. masks env k \<and> x = k @ ''_MASKED'')" by blast
  show ?thesis
    unfolding mask_env_def mask_fold_lookup [OF assms(2) present assms(1)] a b ..
qed

text \<open>
  Outside such collisions the masking is as claim C7 says. Where the keys of \<^verbatim>\<open>env\<close> are
  unique and no key is a masked key with the suffix \<^verbatim>\<open>_MASKED\<close>: a sensitive key with a value
  longer than 12 is gone and its masked value stands under the suffixed key; every other
  member is as it was.
\<close>

lemma mask_env_without_collision:
  assumes "distinct (map fst env)" and "no_collision env" and "(k, v) \<in> set env"
  shows "(sensitive k \<and> 12 < length v \<longrightarrow>
            map_of (mask_env env) k = None
            \<and> map_of (mask_env env) (k @ ''_MASKED'') = Some (mask_value v))
       \<and> (\<not> (sensitive k \<and> 12 < length v) \<longrightarrow> map_of (mask_env env) k = Some v)"
proof -
  from assms(1,3) have v: "map_of env k = Some v" by simp
  have suffix: "take (length (k @ ''_MASKED'') - 7) (k @ ''_MASKED'') = k" by simp
  show ?thesis
  proof (cases "sensitive k \<and> 12 < length v")
    case True
    with v have m: "masks env k" by (simp add: masks_def)
    from no_collisionD [OF assms(2) m] have "\<not> masks env (k @ ''_MASKED'')"
      by (simp add: masks_def)
    with m v True show ?thesis
      unfolding mask_env_lookup [OF assms(1,2)] suffix by auto
  next
    case False
    with v have m: "\<not> masks env k" by (simp add: masks_def)
    have ng: "(\<exists>k'. masks env k' \<and> k = k' @ ''_MASKED'') = False"
      using no_collisionD [OF assms(2)] v by auto
    from m v False show ?thesis
      unfolding mask_env_lookup [OF assms(1,2)] ng by simp
  qed
qed

lemma safe_env_fold:
  "distinct (map fst kvs) \<Longrightarrow>
   map_of (fold safe_step kvs acc) k =
     (case map_of kvs k of
        None \<Rightarrow> map_of acc k
      | Some v \<Rightarrow>
          if k = ''__proto__'' then map_of acc k
          else if sensitive k then (if length v > 12 then Some (mask_value v) else map_of acc k)
          else Some v)"
proof (induction kvs arbitrary: acc)
  case Nil
  show ?case by simp
next
  case (Cons kv kvs)
  obtain k0 v0 where kv: "kv = (k0, v0)" by (cases kv)
  from Cons.prems kv have fresh: "map_of kvs k0 = None" and d: "distinct (map fst kvs)"
    by (simp_all add: map_of_eq_None_iff)
  have step: "map_of (safe_step kv acc) x =
      (if x = k0 \<and> x \<noteq> ''__proto__'' \<and> (sensitive x \<longrightarrow> length v0 > 12)
       then Some (if sensitive x then mask_value v0 else v0) else map_of acc x)" for x
    by (auto simp: kv safe_step_def js_assign_def update_conv')
  have run: "map_of (fold safe_step (kv # kvs) acc) k =
      (case map_of kvs k of
         None \<Rightarrow> map_of (safe_step kv acc) k
       | Some v \<Rightarrow>
           if k = ''__proto__'' then map_of (safe_step kv acc) k
           else if sensitive k then (if length v > 12 then Some (mask_value v) else map_of (safe_step kv acc) k)
           else Some v)"
    by (simp add: Cons.IH [OF d])
  show ?case
  proof (cases "k = k0")
    case True
    with fresh have none: "map_of kvs k = None" by simp
    have here: "map_of (kv # kvs) k = Some v0" using True by (simp add: kv)
    show ?thesis unfolding run none here using True by (simp add: step)
  next
    case False
    then have there: "map_of (kv # kvs) k = map_of kvs k" by (simp add: kv)
    from False have same: "map_of (safe_step kv acc) k = map_of acc k" by (simp add: step)
    show ?thesis unfolding run there same ..
  qed
qed

text \<open>What \<^verbatim>\<open>GET /env\<close> shows of a member under any key but \<^verbatim>\<open>__proto__\<close>, where the keys
  of \<^verbatim>\<open>env\<close> are unique: a sensitive key keeps its name and shows the abbreviated value when
  the value is longer than 12, and is left out otherwise; any other key shows its value.\<close>

lemma safe_env_lookup:
  assumes "distinct (map fst env)" and "k \<noteq> ''__proto__''"
  shows "map_of (safe_env env) k =
     (case map_of env k of
        None \<Rightarrow> None
      | Some v \<Rightarrow>
          if sensitive k then (if length v > 12 then Some (mask_value v) else None) else Some v)"
  using assms by (simp add: safe_env_def safe_env_fold split: option.splits)

text \<open>The masking of \<^verbatim>\<open>GET /providers\<close> works on a copy made by spread, which keeps such a
  member.\<close>

lemma mask_env_keeps_proto:
  "mask_env [(''__proto__'', ''x''), (''ANTHROPIC_BASE_URL'', ''https://example.org'')]
     = [(''__proto__'', ''x''), (''ANTHROPIC_BASE_URL'', ''https://example.org'')]"
  by (simp add: mask_env_def mask_step_def sensitive_def)

text \<open>
  Claim C10 at its failing input: a current provider whose \<^verbatim>\<open>env\<close> has the member
  \<^verbatim>\<open>__proto__\<close>. The key is not sensitive, and \<^verbatim>\<open>safeEnv['__proto__'] = 'x'\<close> defines
  nothing: the member is missing from the view.
\<close>

theorem get_env_drops_proto:
  "get_env parse_proto (Some ''claude'') providers_AB
     = Ok200 [(''ANTHROPIC_BASE_URL'', ''https://example.org'')]
   \<and> \<not> sensitive ''__proto__''"
  by (simp add: get_env_def ccProvidersDb_getCurrent_def providers_AB_def parse_row_def
      parse_proto_def str_or_def app_or_default_def safe_env_def safe_step_def sensitive_def
      js_assign_def)

section \<open>Properties of the speed probe\<close>




















text \<open>Both example tables are what an upsert into the empty table leaves.\<close>

lemma probe_inputs_stored:
  "ccProvidersDb_upsert render 0
     ((example_arg ''A'' ''claude'' (Some (JBool True)))\<lparr>a_settings_config := Some (JStr ''{env'')\<rparr>) []
     = Inr providers_unparsable
   \<and> ccProvidersDb_upsert render 0 ((example_arg ''A'' ''claude'' None)\<lparr>a_id := None\<rparr>) []
     = Inr providers_without_id"
  by (simp add: ccProvidersDb_upsert_def example_arg_def upsert_insert_def example_row_def
      configStr_def str_or_def app_or_default_def or_empty_object_def
      providers_unparsable_def providers_without_id_def)





section \<open>Properties of the applier\<close>

lemma effect_run: "fuel w = None \<Longrightarrow> effect f w = (Inr (), f w)"
  by (simp add: effect_def)

text \<open>
  Claim C5 at its failing inputs. The codex \<^verbatim>\<open>config.toml\<close> and the gemini \<^verbatim>\<open>.env\<close> are
  written by \<^verbatim>\<open>fs.writeFile\<close> on the target path itself. Interrupted between the truncation
  and the write, the applier leaves the file empty, not as it was.
\<close>

theorem toml_and_dotenv_not_atomic:
  "files (world_before (Some 2)) (CODEX_CONFIG ''/home/u'') = Some ''model = old''
   \<and> applyProviderConfig no_parse render ''/home/u'' codex_provider ''codex'' (world_before (Some 2))
       = (Inl Interrupted,
          (world_before (Some 0))\<lparr>files := (files (world_before (Some 0)))(CODEX_CONFIG ''/home/u'' \<mapsto> [])\<rparr>)
   \<and> files (world_before (Some 6)) (path_join (GEMINI_DIR ''/home/u'') ''.env'') = Some ''GEMINI_MODEL=pro''
   \<and> fst (applyProviderConfig no_parse render ''/home/u'' gemini_provider ''gemini'' (world_before (Some 6)))
       = Inl Interrupted
   \<and> files (snd (applyProviderConfig no_parse render ''/home/u'' gemini_provider ''gemini''
        (world_before (Some 6)))) (path_join (GEMINI_DIR ''/home/u'') ''.env'') = Some []"
  by (simp add: applyProviderConfig_def codex_provider_def gemini_provider_def world_before_def
      env_of_def env_truthy_def ensureDir_def fs_mkdir_def fs_writeFile_def then_io_def bind_io_def
      effect_def put_file_def return_io_def merge_settings_def readJsonFile_def no_parse_def
      writeJsonFile_def fs_rename_def throw_io_def
      CODEX_CONFIG_def CODEX_DIR_def GEMINI_DIR_def GEMINI_SETTINGS_def path_join_def dirname_def)

text \<open>By contrast \<^verbatim>\<open>writeJsonFile\<close> is atomic on its target: interrupted anywhere, or not at
  all, it leaves the target either as it was or holding the whole new document.\<close>

lemma tmp_differs: "filePath @ ''.tmp'' \<noteq> filePath"
  by simp

lemma writeJsonFile_atomic:
  "files (snd (writeJsonFile stringify filePath data w)) filePath = files w filePath
   \<or> files (snd (writeJsonFile stringify filePath data w)) filePath = Some (stringify data)"
  by (cases "fuel w")
     (auto simp: writeJsonFile_def ensureDir_def fs_mkdir_def fs_writeFile_def fs_rename_def
        then_io_def bind_io_def effect_def put_file_def split: nat.splits)

lemma writeJsonFile_run:
  "fuel w = None \<Longrightarrow>
   writeJsonFile stringify filePath data w =
     (Inr (), w\<lparr>files := ((files w)(filePath @ ''.tmp'' := None))(filePath \<mapsto> stringify data)\<rparr>)"
  by (simp add: writeJsonFile_def ensureDir_def fs_mkdir_def fs_writeFile_def fs_rename_def
      then_io_def bind_io_def effect_def put_file_def)

lemma export_env_files:
  "files (snd (export_env env w)) = files w"
proof (induction env arbitrary: w)
  case Nil
  show ?case by (simp add: return_io_def)
next
  case (Cons kv env)
  show ?case
    by (cases "fuel w")
       (auto simp: then_io_def bind_io_def set_process_env_def effect_def Cons.IH split: nat.splits)
qed

lemma merged_env_fold:
  "distinct (map fst env) \<Longrightarrow>
   map_of (fold (\<lambda>kv acc. AList.update (fst kv) (JStr (snd kv)) acc) env old) k =
     (case map_of env k of Some v \<Rightarrow> Some (JStr v) | None \<Rightarrow> map_of old k)"
proof (induction env arbitrary: old k)
  case Nil
  show ?case by simp
next
  case (Cons kv env)
  from Cons.prems have fresh: "map_of env (fst kv) = None" and d: "distinct (map fst env)"
    by (simp_all add: map_of_eq_None_iff)
  show ?case
  proof (cases "k = fst kv")
    case True
    with fresh show ?thesis by (simp add: Cons.IH [OF d] update_conv')
  next
    case False
    then show ?thesis by (simp add: Cons.IH [OF d] update_conv' split: option.splits)
  qed
qed

lemma merged_env_lookup:
  "distinct (map fst env) \<Longrightarrow>
   map_of (merged_env old env) k =
     (case map_of env k of Some v \<Rightarrow> Some (JStr v) | None \<Rightarrow> map_of (spread old) k)"
  by (simp add: merged_env_def merged_env_fold)

lemma merge_settings_run:
  assumes "fuel w = None" and "fst (readJsonFile parse path w) = Inr (JObj kvs)"
  shows "files (snd (merge_settings parse stringify path env w)) path
           = Some (stringify (JObj (AList.update ''env'' (JObj (merged_env (map_of kvs ''env'') env)) kvs)))"
    and "fuel (snd (merge_settings parse stringify path env w)) = None"
    and "fst (merge_settings parse stringify path env w) = Inr ()"
proof -
  from assms(2) have "readJsonFile parse path w = (Inr (JObj kvs), w)"
    by (auto simp: readJsonFile_def split: option.splits)
  then have "merge_settings parse stringify path env w
      = writeJsonFile stringify path (JObj (AList.update ''env'' (JObj (merged_env (map_of kvs ''env'') env)) kvs)) w"
    by (simp add: merge_settings_def bind_io_def)
  then show "files (snd (merge_settings parse stringify path env w)) path
           = Some (stringify (JObj (AList.update ''env'' (JObj (merged_env (map_of kvs ''env'') env)) kvs)))"
    and "fuel (snd (merge_settings parse stringify path env w)) = None"
    and "fst (merge_settings parse stringify path env w) = Inr ()"
    using assms(1) by (simp_all add: writeJsonFile_run)
qed

lemma readJsonFile_missing:
  "files w path = None \<or> (\<exists>c. files w path = Some c \<and> parse c = None) \<Longrightarrow>
     fst (readJsonFile parse path w) = Inr (JObj [])"
  by (auto simp: readJsonFile_def)

lemma export_env_ok: "fuel w = None \<Longrightarrow> fst (export_env env w) = Inr ()"
proof (induction env arbitrary: w)
  case Nil
  show ?case by (simp add: return_io_def)
next
  case (Cons kv env)
  then show ?case
    by (simp add: then_io_def bind_io_def set_process_env_def effect_run)
qed

lemma fs_writeFile_run:
  "fuel w = None \<Longrightarrow> fs_writeFile path data w = (Inr (), w\<lparr>files := (files w)(path \<mapsto> data)\<rparr>)"
  by (simp add: fs_writeFile_def then_io_def bind_io_def effect_run put_file_def)

lemma dotenv_differs: "path_join (GEMINI_DIR home) ''.env'' \<noteq> GEMINI_SETTINGS home"
  by (simp add: GEMINI_SETTINGS_def path_join_def)

text \<open>
  The merge where the settings file reads as an object. For app type claude or gemini, with
  no interruption, a settings file that is missing or does not parse reads as \<^verbatim>\<open>{}\<close>, and
  where it reads as an object the applier leaves at the settings path the document with its
  member \<^verbatim>\<open>env\<close> replaced by the merge: a key of the provider's \<^verbatim>\<open>env\<close> has the provider's
  value, any other key has what the existing \<^verbatim>\<open>env\<close> had, and every other top-level member is
  as it was.
\<close>

lemma apply_merges_env:
  assumes "appType = ''claude'' \<or> appType = ''gemini''"
    and "fuel w = None"
    and "distinct (map fst (env_of (snd provider)))"
    and "fst (readJsonFile parse
           (if appType = ''claude'' then CLAUDE_SETTINGS home else GEMINI_SETTINGS home) w) = Inr (JObj kvs)"
  shows "fst (applyProviderConfig parse stringify home provider appType w) = Inr ()
       \<and> files (snd (applyProviderConfig parse stringify home provider appType w))
            (if appType = ''claude'' then CLAUDE_SETTINGS home else GEMINI_SETTINGS home)
          = Some (stringify (JObj (AList.update ''env''
                     (JObj (merged_env (map_of kvs ''env'') (env_of (snd provider)))) kvs)))
       \<and> (\<forall>k. map_of (merged_env (map_of kvs ''env'') (env_of (snd provider))) k
              = (case map_of (env_of (snd provider)) k of
                   Some v \<Rightarrow> Some (JStr v)
                 | None \<Rightarrow> map_of (spread (map_of kvs ''env'')) k))
       \<and> (\<forall>k. k \<noteq> ''env'' \<longrightarrow>
              map_of (AList.update ''env''
                     (JObj (merged_env (map_of kvs ''env'') (env_of (snd provider)))) kvs) k = map_of kvs k)
       \<and> ((files w (if appType = ''claude'' then CLAUDE_SETTINGS home else GEMINI_SETTINGS home) = None
            \<or> (\<exists>c. files w (if appType = ''claude'' then CLAUDE_SETTINGS home else GEMINI_SETTINGS home) = Some c
                  \<and> parse c = None)) \<longrightarrow> kvs = [])"
proof -
  let ?path = "if appType = ''claude'' then CLAUDE_SETTINGS home else GEMINI_SETTINGS home"
  let ?env = "env_of (snd provider)"
  let ?doc = "JObj (AList.update ''env'' (JObj (merged_env (map_of kvs ''env'') ?env)) kvs)"
  have lookups: "\<forall>k. map_of (merged_env (map_of kvs ''env'') ?env) k
              = (case map_of ?env k of
                   Some v \<Rightarrow> Some (JStr v)
                 | None \<Rightarrow> map_of (spread (map_of kvs ''env'')) k)"
    using assms(3) by (simp add: merged_env_lookup)
  have others: "\<forall>k. k \<noteq> ''env'' \<longrightarrow>
       map_of (AList.update ''env'' (JObj (merged_env (map_of kvs ''env'') ?env)) kvs) k = map_of kvs k"
    by (simp add: update_conv')
  have empty: "(files w ?path = None \<or> (\<exists>c. files w ?path = Some c \<and> parse c = None)) \<longrightarrow> kvs = []"
    using assms(4) readJsonFile_missing [of w ?path parse] by auto
  have step1: "ensureDir d w = (Inr (), w)" for d
    using assms(2) by (simp add: ensureDir_def fs_mkdir_def effect_run)
  note m = merge_settings_run [OF assms(2,4), of stringify ?env]
  obtain w1 where w1: "merge_settings parse stringify ?path ?env w = (Inr (), w1)"
    and f1: "files w1 ?path = Some (stringify ?doc)" and n1: "fuel w1 = None"
    using m by (cases "merge_settings parse stringify ?path ?env w") auto
  have run: "fst (applyProviderConfig parse stringify home provider appType w) = Inr ()
       \<and> files (snd (applyProviderConfig parse stringify home provider appType w)) ?path
          = Some (stringify ?doc)"
  proof (cases "appType = ''claude''")
    case True
    have a: "applyProviderConfig parse stringify home provider appType w = export_env ?env w1"
      using True w1 by (simp add: applyProviderConfig_def Let_def then_io_def bind_io_def step1)
    have "fst (export_env ?env w1) = Inr ()" using n1 by (rule export_env_ok)
    then show ?thesis unfolding a using True f1 by (simp add: export_env_files)
  next
    case False
    with assms(1) have g: "appType = ''gemini''" by simp
    have a: "applyProviderConfig parse stringify home provider appType w
        = fs_writeFile (path_join (GEMINI_DIR home) ''.env'')
            (join_lines (map (\<lambda>kv. fst kv @ ''='' @ snd kv) ?env)) w1"
      using g w1 by (simp add: applyProviderConfig_def Let_def then_io_def bind_io_def step1)
    show ?thesis unfolding a using g f1 dotenv_differs [of home]
      by (simp add: fs_writeFile_run [OF n1])
  qed
  with lookups others empty show ?thesis by blast
qed

lemma known_settings:
  "fst (readJsonFile parse_known (CLAUDE_SETTINGS ''/home/u'') world_FOO_BAR)
     = Inr (JObj [(''env'', JObj [(''FOO'', JStr ''1''), (''BAR'', JStr ''2'')])])"
  by (simp add: readJsonFile_def world_FOO_BAR_def parse_known_def settings_FOO_BAR_def)

text \<open>The merge scenario: existing \<^verbatim>\<open>{"env":{"FOO":"1","BAR":"2"}}\<close>, provider \<^verbatim>\<open>env\<close>
  \<^verbatim>\<open>{"BAR":"9","BAZ":"3"}\<close>.\<close>

lemma apply_merges_env_example:
  "(''claude'' = ''claude'' \<or> ''claude'' = ''gemini'')
   \<and> fuel world_FOO_BAR = None
   \<and> distinct (map fst (env_of (snd provider_BAR_BAZ)))
   \<and> fst (readJsonFile parse_known (CLAUDE_SETTINGS ''/home/u'') world_FOO_BAR)
        = Inr (JObj [(''env'', JObj [(''FOO'', JStr ''1''), (''BAR'', JStr ''2'')])])
   \<and> files (snd (applyProviderConfig parse_known render ''/home/u'' provider_BAR_BAZ ''claude'' world_FOO_BAR))
        (CLAUDE_SETTINGS ''/home/u'')
      = Some (render (JObj [(''env'', JObj [(''FOO'', JStr ''1''), (''BAR'', JStr ''9''), (''BAZ'', JStr ''3'')])]))"
proof -
  have a: "''claude'' = ''claude'' \<or> ''claude'' = ''gemini''" by simp
  have f: "fuel world_FOO_BAR = None" by (simp add: world_FOO_BAR_def)
  have d: "distinct (map fst (env_of (snd provider_BAR_BAZ)))"
    by (simp add: provider_BAR_BAZ_def env_of_def)
  have r: "fst (readJsonFile parse_known
       (if ''claude'' = ''claude'' then CLAUDE_SETTINGS ''/home/u'' else GEMINI_SETTINGS ''/home/u'') world_FOO_BAR)
     = Inr (JObj [(''env'', JObj [(''FOO'', JStr ''1''), (''BAR'', JStr ''2'')])])"
    using known_settings by simp
  have m: "merged_env (Some (JObj [(''FOO'', JStr ''1''), (''BAR'', JStr ''2'')])) (env_of (snd provider_BAR_BAZ))
      = [(''FOO'', JStr ''1''), (''BAR'', JStr ''9''), (''BAZ'', JStr ''3'')]"
    by (simp add: merged_env_def provider_BAR_BAZ_def env_of_def)
  from apply_merges_env [OF a f d r, of render]
  have "files (snd (applyProviderConfig parse_known render ''/home/u'' provider_BAR_BAZ ''claude'' world_FOO_BAR))
        (CLAUDE_SETTINGS ''/home/u'')
      = Some (render (JObj [(''env'', JObj [(''FOO'', JStr ''1''), (''BAR'', JStr ''9''), (''BAZ'', JStr ''3'')])]))"
    by (simp add: m)
  with a f d known_settings show ?thesis by blast
qed

text \<open>
  Claim C6 at its failing inputs. \<^verbatim>\<open>readJsonFile\<close> hands on whatever the settings file
  parses to. Where the file holds the JSON text \<^verbatim>\<open>[]\<close>, the applier sets \<^verbatim>\<open>env\<close> on the array,
  writes the array back without it, and succeeds: the document has no \<^verbatim>\<open>env\<close>, where the
  claim asks for the provider's \<^verbatim>\<open>env\<close> merged in. Where the file holds \<^verbatim>\<open>null\<close> the applier
  throws and writes nothing.
\<close>

theorem settings_not_object_loses_env:
  "env_of (snd provider_BAR_BAZ) = [(''BAR'', ''9''), (''BAZ'', ''3'')]
   \<and> files (world_holding ''[]'') (CLAUDE_SETTINGS ''/home/u'') = Some ''[]''
   \<and> fst (applyProviderConfig parse_literals render ''/home/u'' provider_BAR_BAZ ''claude''
           (world_holding ''[]'')) = Inr ()
   \<and> files (snd (applyProviderConfig parse_literals render ''/home/u'' provider_BAR_BAZ ''claude''
           (world_holding ''[]''))) (CLAUDE_SETTINGS ''/home/u'') = Some ''[]''
   \<and> render (JObj [(''env'', JObj [(''BAR'', JStr ''9''), (''BAZ'', JStr ''3'')])]) \<noteq> ''[]''
   \<and> fst (applyProviderConfig parse_literals render ''/home/u'' provider_BAR_BAZ ''claude''
           (world_holding ''null'')) = Inl TypeError
   \<and> files (snd (applyProviderConfig parse_literals render ''/home/u'' provider_BAR_BAZ ''claude''
           (world_holding ''null''))) (CLAUDE_SETTINGS ''/home/u'') = Some ''null''"
  by (simp add: applyProviderConfig_def provider_BAR_BAZ_def world_holding_def parse_literals_def
      env_of_def ensureDir_def fs_mkdir_def fs_writeFile_def then_io_def bind_io_def
      effect_def put_file_def return_io_def throw_io_def merge_settings_def readJsonFile_def
      writeJsonFile_def fs_rename_def set_process_env_def
      CLAUDE_SETTINGS_def CLAUDE_DIR_def path_join_def dirname_def)

section \<open>Properties of the switch route\<close>

lemma getById_none:
  "ccProvidersDb_getById parse_config (Some i) tbl = Inr None \<longleftrightarrow> Some i \<notin> p_id ` set tbl"
proof -
  have "(\<exists>r. r \<in> set tbl \<and> p_id r = Some i) \<longleftrightarrow> Some i \<in> p_id ` set tbl"
    by (metis imageE imageI)
  then have "find (\<lambda>r. Some i \<noteq> None \<and> p_id r = Some i) tbl = None \<longleftrightarrow> Some i \<notin> p_id ` set tbl"
    by (simp add: find_None_iff)
  then show ?thesis
    by (auto simp: ccProvidersDb_getById_def split: option.splits sum.splits)
qed

text \<open>Where no provider has the id, under any app type, the route answers 404 and touches
  neither the table nor the files.\<close>

lemma switch_route_not_found:
  assumes "Some i \<notin> p_id ` set tbl"
  shows "switch_route parse_config parse stringify home i app tbl w = (NotFound404, tbl, w)"
proof -
  from assms have "ccProvidersDb_getById parse_config (Some i) tbl = Inr None" by (simp add: getById_none)
  then show ?thesis by (simp add: switch_route_def)
qed

text \<open>
  Claim C2 at its failing input. A is the current provider of claude and C is a provider of
  codex. \<^verbatim>\<open>POST /providers/C/switch?app=claude\<close> finds C by id alone, so it does not answer
  404: it clears the current flag of A, sets none, and answers with success. The store's
  \<^verbatim>\<open>switchTo\<close> itself answers \<^verbatim>\<open>true\<close> for an id that no provider has, and clears A as well.
\<close>

theorem switch_route_foreign_app:
  "map p_id (current_of ''claude'' providers_A_C) = [Some ''A'']
   \<and> fst (switch_route parse_empty no_parse render ''/home/u'' ''C'' (Some ''claude'') providers_A_C
           \<lparr> files = Map.empty, process_env = Map.empty, fuel = None \<rparr>)
       = Ok200 \<lparr> sw_id = Some ''C'', sw_name = ''C'', sw_baseUrl = None, sw_model = None \<rparr>
   \<and> current_of ''claude''
        (fst (snd (switch_route parse_empty no_parse render ''/home/u'' ''C'' (Some ''claude'') providers_A_C
           \<lparr> files = Map.empty, process_env = Map.empty, fuel = None \<rparr>))) = []
   \<and> fst (ccProvidersDb_switchTo ''ghost'' (Some ''claude'') providers_A_C) = True
   \<and> current_of ''claude'' (snd (ccProvidersDb_switchTo ''ghost'' (Some ''claude'') providers_A_C)) = []"
  by (simp add: switch_route_def ccProvidersDb_getById_def providers_A_C_def parse_row_def
      parse_empty_def str_or_def ccProvidersDb_switchTo_def app_or_default_def set_current_def
      clear_current_def set_row_def clear_row_def current_of_def example_row_def
      applyProviderConfig_def env_of_def ensureDir_def fs_mkdir_def then_io_def bind_io_def
      effect_def merge_settings_def readJsonFile_def writeJsonFile_def fs_writeFile_def
      fs_rename_def put_file_def return_io_def merged_env_def)

end
